theory Spec2Isabelle
  imports Complex_Main "HOL-Library.Monad_Syntax"
begin

section \<open>Cells and data frames\<close>

text \<open>
  The pipeline of \<^verbatim>\<open>etl.py\<close> moves tables between a relational store and pandas data
  frames. A cell is null (pandas NaN / NaT / None, SQL NULL), a text, a number, a boolean,
  a timestamp (year, month, day, time of day) or a calendar date. A number cell carries
  the value of the number, a rational: the value of a float64 of pandas, of a
  \<^verbatim>\<open>DOUBLE PRECISION\<close>, \<^verbatim>\<open>BIGINT\<close> or \<^verbatim>\<open>NUMERIC\<close> of the store. The arithmetic that
  the code does on doubles rounds its result, see \<open>float64\<close> below.
\<close>

datatype cell =
    Null
  | Str string
  | Num rat
  | Flag bool
  | Stamp int nat nat nat
  | Day int nat nat

text \<open>A data frame (and a table of the store) is a list of column names and a list of rows.\<close>

record dataframe =
  columns :: "string list"
  rows :: "cell list list"

fun index_of :: "'a \<Rightarrow> 'a list \<Rightarrow> nat option" where
  "index_of c [] = None"
| "index_of c (x # xs) = (if x = c then Some 0 else map_option Suc (index_of c xs))"

definition cell_at :: "nat \<Rightarrow> cell list \<Rightarrow> cell" where
  "cell_at i r = (if i < length r then r ! i else Null)"

text \<open>\<^verbatim>\<open>df[c]\<close>: the column as a series; a missing column raises KeyError (\<open>None\<close>).\<close>

definition get_column :: "dataframe \<Rightarrow> string \<Rightarrow> cell list option" where
  "get_column df c = map_option (\<lambda>i. map (cell_at i) (rows df)) (index_of c (columns df))"

text \<open>
  \<^verbatim>\<open>df.drop_duplicates(subset=c)\<close>: rows are scanned in order, a row is kept when its key
  has not been seen before (pandas counts two null keys as equal).
\<close>

fun keep_first :: "('a \<Rightarrow> 'k) \<Rightarrow> 'k list \<Rightarrow> 'a list \<Rightarrow> 'a list" where
  "keep_first key seen [] = []"
| "keep_first key seen (r # rs) =
     (if key r \<in> set seen then keep_first key seen rs
      else r # keep_first key (key r # seen) rs)"

definition drop_duplicates :: "dataframe \<Rightarrow> string \<Rightarrow> dataframe option" where
  "drop_duplicates df c =
     map_option (\<lambda>i. df\<lparr>rows := keep_first (cell_at i) [] (rows df)\<rparr>) (index_of c (columns df))"

text \<open>
  \<^verbatim>\<open>df[c] = f(df[c])\<close> for an elementwise \<open>f\<close>: the column is read (KeyError when it is
  missing) and written back, every other cell stays.
\<close>

definition map_column :: "(cell \<Rightarrow> cell) \<Rightarrow> dataframe \<Rightarrow> string \<Rightarrow> dataframe option" where
  "map_column f df c =
     map_option (\<lambda>i. df\<lparr>rows := map (\<lambda>r. r[i := f (cell_at i r)]) (rows df)\<rparr>)
       (index_of c (columns df))"

text \<open>\<^verbatim>\<open>series.isin(values)\<close> is a boolean mask; \<^verbatim>\<open>df[mask]\<close> keeps the rows marked true.\<close>

definition isin :: "cell list \<Rightarrow> cell list \<Rightarrow> bool list" where
  "isin col vals = map (\<lambda>c. c \<in> set vals) col"

definition select_rows :: "dataframe \<Rightarrow> bool list \<Rightarrow> dataframe" where
  "select_rows df keep = df\<lparr>rows := map fst (filter snd (zip (rows df) keep))\<rparr>"

text \<open>\<^verbatim>\<open>df.isna().sum().sum()\<close> and \<^verbatim>\<open>series.isna().sum()\<close>: the number of null cells.\<close>

definition isna_count :: "cell list \<Rightarrow> nat" where
  "isna_count cs = length (filter (\<lambda>c. c = Null) cs)"

definition isna_total :: "dataframe \<Rightarrow> nat" where
  "isna_total df = sum_list (map isna_count (rows df))"

text \<open>
  \<^verbatim>\<open>pd.concat([a, b], ignore_index=True)\<close>: the columns of \<open>a\<close>, then the new ones of
  \<open>b\<close>; every row is laid out along them, null where its frame has no such column.
\<close>

definition realign :: "string list \<Rightarrow> dataframe \<Rightarrow> cell list \<Rightarrow> cell list" where
  "realign cols df r =
     map (\<lambda>c. case index_of c (columns df) of None \<Rightarrow> Null | Some i \<Rightarrow> cell_at i r) cols"

definition concat_frames :: "dataframe \<Rightarrow> dataframe \<Rightarrow> dataframe" where
  "concat_frames a b =
     (let cols = columns a @ filter (\<lambda>c. c \<notin> set (columns a)) (columns b)
      in \<lparr>columns = cols,
          rows = map (realign cols a) (rows a) @ map (realign cols b) (rows b)\<rparr>)"

section \<open>The environment and the store\<close>

text \<open>
  What the code takes from outside the repository is a parameter of the model: the
  parsers behind \<^verbatim>\<open>pd.to_numeric\<close> and \<^verbatim>\<open>pd.to_datetime\<close> (\<open>None\<close> when the
  value does not parse), the MD5 digest of the CSV rendering of a frame, and the value of
  \<^verbatim>\<open>datetime.now()\<close> at its n-th call.
\<close>

record env =
  to_numeric_val :: "cell \<Rightarrow> rat option"
  to_datetime_val :: "cell \<Rightarrow> (int \<times> nat \<times> nat \<times> nat) option"
  md5 :: "dataframe \<Rightarrow> string"
  clock :: "nat \<Rightarrow> cell"

text \<open>
  The store: the tables of the database under their qualified names, the CSV files under
  \<^verbatim>\<open>log/\<close> (a file holds the frame written to it), the row-count/checksum lines
  printed so far (layer, table, rows, checksum) and the number of clock readings taken.
\<close>

record store =
  tables :: "string \<rightharpoonup> dataframe"
  files :: "string \<rightharpoonup> dataframe"
  console :: "(string \<times> string \<times> nat \<times> string) list"
  ticks :: nat

definition now :: "env \<Rightarrow> store \<Rightarrow> cell \<times> store" where
  "now e s = (clock e (ticks s), s\<lparr>ticks := Suc (ticks s)\<rparr>)"

text \<open>\<^verbatim>\<open>pd.read_sql("SELECT * FROM t")\<close>: a missing table raises.\<close>

definition read_sql :: "store \<Rightarrow> string \<Rightarrow> dataframe option" where
  "read_sql s t = tables s t"

text \<open>\<^verbatim>\<open>df.to_sql(..., if_exists="replace")\<close>: the table is dropped and created anew.\<close>

definition to_sql_replace :: "string \<Rightarrow> dataframe \<Rightarrow> store \<Rightarrow> store" where
  "to_sql_replace t df s = s\<lparr>tables := (tables s)(t \<mapsto> df)\<rparr>"

definition create_table_if_not_exists :: "string \<Rightarrow> string list \<Rightarrow> store \<Rightarrow> store" where
  "create_table_if_not_exists t cols s =
     (case tables s t of
        None \<Rightarrow> s\<lparr>tables := (tables s)(t \<mapsto> \<lparr>columns = cols, rows = []\<rparr>)\<rparr>
      | Some _ \<Rightarrow> s)"

text \<open>
  \<^verbatim>\<open>df.to_sql(..., if_exists="append")\<close>: the rows are inserted after the existing ones,
  by column name; a column the table does not have makes the insert fail.
\<close>

definition to_sql_append :: "string \<Rightarrow> dataframe \<Rightarrow> store \<Rightarrow> store option" where
  "to_sql_append t df s =
     (case tables s t of
        None \<Rightarrow> Some (s\<lparr>tables := (tables s)(t \<mapsto> df)\<rparr>)
      | Some old \<Rightarrow>
          if set (columns df) \<subseteq> set (columns old)
          then Some (s\<lparr>tables := (tables s)(t \<mapsto>
                 old\<lparr>rows := rows old @ map (realign (columns old) df) (rows df)\<rparr>)\<rparr>)
          else None)"

section \<open>Audit helpers\<close>

text \<open>
  \<open>log_rows_and_checksum\<close> writes the frame to \<^verbatim>\<open>log/{layer}/{table}.csv\<close>
  (\<^verbatim>\<open>to_csv\<close> replaces the file) and prints the row count and the digest of that file.
  \<open>log_dq\<close> writes the one-row frame of the record to \<^verbatim>\<open>log/silver/{table}_dq.csv\<close>
  in the same way and inserts it into \<^verbatim>\<open>audit.rejected_rows\<close>. A step that raises
  is \<open>None\<close>: what it had written before is not part of the model.
\<close>

definition log_rows_and_checksum :: "env \<Rightarrow> dataframe \<Rightarrow> string \<Rightarrow> string \<Rightarrow> store \<Rightarrow> store" where
  "log_rows_and_checksum e df layer table s =
     s\<lparr>files := (files s)(''log/'' @ layer @ ''/'' @ table @ ''.csv'' \<mapsto> df),
       console := console s @ [(layer, table, length (rows df), md5 e df)]\<rparr>"

definition dq_columns :: "string list" where
  "dq_columns = [''table_name'', ''missing_values'', ''invalid_values'', ''processed_at'']"

definition log_dq :: "env \<Rightarrow> string \<Rightarrow> nat \<Rightarrow> nat \<Rightarrow> store \<Rightarrow> store option" where
  "log_dq e table missing invalid s =
     (let (t, s) = now e s;
          df = \<lparr>columns = dq_columns,
                rows = [[Str table, Num (of_nat missing), Num (of_nat invalid), t]]\<rparr>;
          s = s\<lparr>files := (files s)(''log/silver/'' @ table @ ''_dq.csv'' \<mapsto> df)\<rparr>;
          s = create_table_if_not_exists ''audit.rejected_rows'' dq_columns s
      in to_sql_append ''audit.rejected_rows'' df s)"

definition recon_columns :: "string list" where
  "recon_columns =
     [''silver_trips_sum'', ''silver_payments_sum'', ''gold_fact_sum'',
      ''trips_count_silver'', ''payments_count_silver'', ''fact_trips_count_gold'',
      ''fare_diff_silver'', ''silver_vs_gold_sum_diff'', ''trips_count_diff'',
      ''checked_at'']"

text \<open>
  \<open>log_reconciliation\<close>: the frame \<open>df\<close> of the new record is rebound to the concatenation
  with the existing CSV file before it is written to the file and appended to the table.
\<close>

definition log_reconciliation :: "env \<Rightarrow> cell list \<Rightarrow> store \<Rightarrow> store option" where
  "log_reconciliation e results s =
     (let (t, s) = now e s;
          df = \<lparr>columns = recon_columns, rows = [results @ [t]]\<rparr>;
          df = (case files s ''log/gold/reconciliation.csv'' of
                  None \<Rightarrow> df
                | Some existing \<Rightarrow> concat_frames existing df);
          s = s\<lparr>files := (files s)(''log/gold/reconciliation.csv'' \<mapsto> df)\<rparr>;
          s = create_table_if_not_exists ''audit.reconciliation_log'' recon_columns s
      in to_sql_append ''audit.reconciliation_log'' df s)"

section \<open>Double precision\<close>

text \<open>
  The fare columns are float64 in pandas (\<^verbatim>\<open>pd.to_numeric\<close>) and \<^verbatim>\<open>DOUBLE PRECISION\<close> in
  the store (\<^verbatim>\<open>to_sql\<close>): the value that \<^verbatim>\<open>pd.to_numeric\<close> parses is kept as the nearest
  double, and every sum, average and difference that the code takes of fares is an
  operation on doubles: its result is the exact result rounded to 53 significant bits, to
  nearest, ties to even. (A fare column that holds only integers and no null would be
  int64 and \<^verbatim>\<open>BIGINT\<close>, with exact sums; the model takes the fares as doubles.)

  \<open>round_sig b p q\<close> rounds \<open>q\<close> to \<open>p\<close> significant digits in base \<open>b\<close>: with
  \<open>n / d = \<bar>q\<bar>\<close> it finds the exponent \<open>ex\<close> with \<open>b ^ (p - 1) \<le> \<bar>q\<bar> / b ^ ex < b ^ p\<close>
  from the digit counts of \<open>n\<close> and \<open>d\<close> and rounds the quotient to an integer. Overflow
  to infinity, the subnormal range and NaN as a value distinct from null are outside the
  model.
\<close>

definition round_div :: "int \<Rightarrow> int \<Rightarrow> int" where
  "round_div a b =
     (let f = a div b; r = a mod b
      in if 2 * r < b then f else if b < 2 * r then f + 1 else if even f then f else f + 1)"

function digits :: "int \<Rightarrow> int \<Rightarrow> int" where
  "digits b n = (if n \<le> 0 \<or> b \<le> 1 then 0 else 1 + digits b (n div b))"
  by pat_completeness auto
termination
  by (relation "measure (\<lambda>(b, n). nat n)") (auto intro!: int_div_less_self)

fun ipow :: "int \<Rightarrow> nat \<Rightarrow> int" where
  "ipow b 0 = 1"
| "ipow b (Suc k) = b * ipow b k"

definition round_sig :: "int \<Rightarrow> nat \<Rightarrow> rat \<Rightarrow> rat" where
  "round_sig b p q =
     (if q = 0 then 0
      else let (n, d) = quotient_of \<bar>q\<bar>;
               ex0 = digits b n - digits b d - int p;
               n0 = (if 0 \<le> ex0 then n else n * ipow b (nat (- ex0)));
               d0 = (if 0 \<le> ex0 then d * ipow b (nat ex0) else d);
               ex = (if n0 < d0 * ipow b p then ex0 else ex0 + 1);
               d1 = (if n0 < d0 * ipow b p then d0 else d0 * b);
               m = round_div n0 d1;
               r = (if 0 \<le> ex then of_int (m * ipow b (nat ex))
                    else Fract m (ipow b (nat (- ex))))
           in if q < 0 then - r else r)"

definition float64 :: "rat \<Rightarrow> rat" where
  "float64 q = round_sig 2 53 q"

text \<open>
  The two rollup tables of Gold declare \<^verbatim>\<open>total_fare\<close> and \<^verbatim>\<open>avg_fare\<close> as \<^verbatim>\<open>NUMERIC\<close>:
  the \<^verbatim>\<open>INSERT\<close> converts the double that \<^verbatim>\<open>SUM\<close> and \<^verbatim>\<open>AVG\<close> return. PostgreSQL
  converts a double to \<^verbatim>\<open>NUMERIC\<close> through its decimal rendering with 15 significant
  digits.
\<close>

definition float8_to_numeric :: "rat \<Rightarrow> rat" where
  "float8_to_numeric q = round_sig 10 15 q"

fun cast_numeric :: "cell \<Rightarrow> cell" where
  "cast_numeric (Num q) = Num (float8_to_numeric q)"
| "cast_numeric c = c"

section \<open>Silver\<close>

definition VALID_VEHICLE_TYPES :: "cell list" where
  "VALID_VEHICLE_TYPES = [Str ''Sedan'', Str ''SUV'', Str ''Hatchback'', Str ''Mini'']"

text \<open>
  \<^verbatim>\<open>errors="coerce"\<close>: a null stays null and a value that does not parse becomes null
  (NaN for numbers, NaT for timestamps). A number that parses is stored as a float64.
\<close>

definition to_numeric_coerce :: "env \<Rightarrow> cell \<Rightarrow> cell" where
  "to_numeric_coerce e c =
     (if c = Null then Null
      else case to_numeric_val e c of None \<Rightarrow> Null | Some q \<Rightarrow> Num (float64 q))"

definition to_datetime_coerce :: "env \<Rightarrow> cell \<Rightarrow> cell" where
  "to_datetime_coerce e c =
     (if c = Null then Null
      else case to_datetime_val e c of None \<Rightarrow> Null | Some (y, m, d, t) \<Rightarrow> Stamp y m d t)"

text \<open>
  The in-memory part of \<open>build_silver\<close> (the steps "Dedupe by PKs", "Types",
  "Enum normalization" and "FK checks"), from the four Bronze frames to the four Silver
  frames (customers, drivers, trips, payments).
\<close>

definition silver_frames ::
  "env \<Rightarrow> dataframe \<Rightarrow> dataframe \<Rightarrow> dataframe \<Rightarrow> dataframe
     \<Rightarrow> (dataframe \<times> dataframe \<times> dataframe \<times> dataframe) option" where
  "silver_frames e bc bd bt bp = do {
     df_customers \<leftarrow> drop_duplicates bc ''customer_id'';
     df_drivers \<leftarrow> drop_duplicates bd ''driver_id'';
     df_trips \<leftarrow> drop_duplicates bt ''trip_id'';
     df_payments \<leftarrow> drop_duplicates bp ''payment_id'';
     df_customers \<leftarrow> map_column (to_datetime_coerce e) df_customers ''signup_date'';
     df_trips \<leftarrow> map_column (to_numeric_coerce e) df_trips ''trip_fare'';
     df_payments \<leftarrow> map_column (to_numeric_coerce e) df_payments ''trip_fare'';
     df_drivers \<leftarrow>
       (if ''vehicle_type'' \<in> set (columns df_drivers)
        then do {
          vt \<leftarrow> get_column df_drivers ''vehicle_type'';
          Some (select_rows df_drivers (isin vt VALID_VEHICLE_TYPES)) }
        else Some df_drivers);
     tc \<leftarrow> get_column df_trips ''customer_id'';
     cc \<leftarrow> get_column df_customers ''customer_id'';
     let df_trips = select_rows df_trips (isin tc cc);
     td \<leftarrow> get_column df_trips ''driver_id'';
     dd \<leftarrow> get_column df_drivers ''driver_id'';
     let df_trips = select_rows df_trips (isin td dd);
     pt \<leftarrow> get_column df_payments ''trip_id'';
     tt \<leftarrow> get_column df_trips ''trip_id'';
     let df_payments = select_rows df_payments (isin pt tt);
     Some (df_customers, df_drivers, df_trips, df_payments) }"

text \<open>
  \<open>build_silver\<close>: read Bronze, transform, log the data-quality counts, replace the Silver
  tables, log the snapshots. An exception anywhere is the result \<open>None\<close>. The script
  \<^verbatim>\<open>silver_etl.py\<close> runs the same steps on the same tables, without the test for the
  \<open>vehicle_type\<close> column and without the logs.
\<close>

definition build_silver :: "env \<Rightarrow> store \<Rightarrow> store option" where
  "build_silver e s = do {
     bc \<leftarrow> read_sql s ''bronze.customers'';
     bd \<leftarrow> read_sql s ''bronze.drivers'';
     bt \<leftarrow> read_sql s ''bronze.trips'';
     bp \<leftarrow> read_sql s ''bronze.payments'';
     (df_customers, df_drivers, df_trips, df_payments) \<leftarrow> silver_frames e bc bd bt bp;
     let missing_customers = isna_total df_customers;
     let missing_drivers = isna_total df_drivers;
     tf \<leftarrow> get_column df_trips ''trip_fare'';
     let invalid_trip_fare = isna_count tf;
     pf \<leftarrow> get_column df_payments ''trip_fare'';
     let invalid_pay_fare = isna_count pf;
     s \<leftarrow> log_dq e ''customers'' missing_customers 0 s;
     s \<leftarrow> log_dq e ''drivers'' missing_drivers 0 s;
     s \<leftarrow> log_dq e ''trips'' 0 invalid_trip_fare s;
     s \<leftarrow> log_dq e ''payments'' 0 invalid_pay_fare s;
     let s = to_sql_replace ''silver.customers'' df_customers s;
     let s = to_sql_replace ''silver.drivers'' df_drivers s;
     let s = to_sql_replace ''silver.trips'' df_trips s;
     let s = to_sql_replace ''silver.payments'' df_payments s;
     let s = log_rows_and_checksum e df_customers ''silver'' ''customers'' s;
     let s = log_rows_and_checksum e df_drivers ''silver'' ''drivers'' s;
     let s = log_rows_and_checksum e df_trips ''silver'' ''trips'' s;
     let s = log_rows_and_checksum e df_payments ''silver'' ''payments'' s;
     Some s }"

section \<open>Gold\<close>

text \<open>
  The SQL of \<open>build_gold\<close> and \<open>reconcile\<close>. A column reference \<^verbatim>\<open>t.c\<close> is an
  error when the table has no such column. Comparison is three-valued: it is null as
  soon as one side is null, and a join keeps the pairs whose condition is true.
\<close>

definition sql_col :: "dataframe \<Rightarrow> string \<Rightarrow> (cell list \<Rightarrow> cell) option" where
  "sql_col df c = map_option cell_at (index_of c (columns df))"

definition sql_eq :: "cell \<Rightarrow> cell \<Rightarrow> cell" where
  "sql_eq a b = (if a = Null \<or> b = Null then Null else Flag (a = b))"

definition coalesce :: "cell \<Rightarrow> cell \<Rightarrow> cell" where
  "coalesce a b = (if a = Null then b else a)"

definition inner_join :: "('a \<Rightarrow> 'b \<Rightarrow> bool) \<Rightarrow> 'a list \<Rightarrow> 'b list \<Rightarrow> ('a \<times> 'b) list" where
  "inner_join on xs ys = concat (map (\<lambda>x. map (Pair x) (filter (on x) ys)) xs)"

text \<open>A left join keeps a row without partner once, with nulls for the right side.\<close>

definition left_join :: "('a \<Rightarrow> 'b \<Rightarrow> bool) \<Rightarrow> 'a list \<Rightarrow> 'b list \<Rightarrow> ('a \<times> 'b option) list" where
  "left_join on xs ys =
     concat (map (\<lambda>x. case filter (on x) ys of
                          [] \<Rightarrow> [(x, None)]
                        | m # ms \<Rightarrow> map (\<lambda>y. (x, Some y)) (m # ms)) xs)"

definition null_ext :: "(cell list \<Rightarrow> cell) \<Rightarrow> cell list option \<Rightarrow> cell" where
  "null_ext f ro = (case ro of None \<Rightarrow> Null | Some r \<Rightarrow> f r)"

subsection \<open>Aggregates\<close>

text \<open>
  The aggregates skip nulls; \<^verbatim>\<open>SUM\<close> and \<^verbatim>\<open>AVG\<close> of no value are null. The fare
  columns of Silver are numeric, so a fare cell is a number or null. \<^verbatim>\<open>SUM\<close> over a
  double precision column adds the values one by one to an accumulator that starts with
  the first, each addition rounded; the values come in the order of the rows.
  \<^verbatim>\<open>AVG\<close> divides that sum by the number of values.
\<close>

fun nums :: "cell list \<Rightarrow> rat list" where
  "nums [] = []"
| "nums (Num q # cs) = q # nums cs"
| "nums (_ # cs) = nums cs"

definition float_sum :: "rat list \<Rightarrow> rat" where
  "float_sum qs = (case qs of [] \<Rightarrow> 0 | q # qs' \<Rightarrow> foldl (\<lambda>a x. float64 (a + x)) q qs')"

definition sql_sum :: "cell list \<Rightarrow> cell" where
  "sql_sum cs = (case nums cs of [] \<Rightarrow> Null | q # qs \<Rightarrow> Num (float_sum (q # qs)))"

definition sql_avg :: "cell list \<Rightarrow> cell" where
  "sql_avg cs =
     (case nums cs of
        [] \<Rightarrow> Null
      | q # qs \<Rightarrow> Num (float64 (float_sum (q # qs) / of_nat (length (q # qs)))))"

definition sql_count :: "'a list \<Rightarrow> cell" where
  "sql_count rs = Num (of_nat (length rs))"

text \<open>\<^verbatim>\<open>DATE_TRUNC('month', x)::date\<close>, on the timestamp column that Silver holds.\<close>

fun date_trunc_month :: "cell \<Rightarrow> cell" where
  "date_trunc_month (Stamp y m d t) = Day y m 1"
| "date_trunc_month (Day y m d) = Day y m 1"
| "date_trunc_month _ = Null"

definition driver_performance_columns :: "string list" where
  "driver_performance_columns =
     [''driver_id'', ''driver_name'', ''vehicle_type'', ''trips_count'', ''total_fare'', ''avg_fare'']"

text \<open>
  \<^verbatim>\<open>GROUP BY\<close>: one output row for each distinct key among the joined rows (two nulls
  are the same key), with the aggregates over the rows of that key.
\<close>

definition driver_performance :: "dataframe \<Rightarrow> dataframe \<Rightarrow> dataframe option" where
  "driver_performance t d = do {
     d_driver_id \<leftarrow> sql_col d ''driver_id'';
     d_driver_name \<leftarrow> sql_col d ''driver_name'';
     d_vehicle_type \<leftarrow> sql_col d ''vehicle_type'';
     t_trip_fare \<leftarrow> sql_col t ''trip_fare'';
     t_driver_id \<leftarrow> sql_col t ''driver_id'';
     let joined = inner_join (\<lambda>tr dr. sql_eq (d_driver_id dr) (t_driver_id tr) = Flag True)
                    (rows t) (rows d);
     let key = (\<lambda>(tr, dr). [d_driver_id dr, d_driver_name dr, d_vehicle_type dr]);
     Some \<lparr>columns = driver_performance_columns,
           rows = map (\<lambda>k. let g = filter (\<lambda>j. key j = k) joined
                            in k @ [sql_count g,
                                    cast_numeric (sql_sum (map (t_trip_fare \<circ> fst) g)),
                                    cast_numeric (sql_avg (map (t_trip_fare \<circ> fst) g))])
                    (remdups (map key joined))\<rparr> }"

definition route_performance_columns :: "string list" where
  "route_performance_columns =
     [''pickup_location'', ''drop_location'', ''trips_count'', ''total_fare'', ''avg_fare'']"

definition route_performance :: "dataframe \<Rightarrow> dataframe option" where
  "route_performance t = do {
     t_pickup_location \<leftarrow> sql_col t ''pickup_location'';
     t_drop_location \<leftarrow> sql_col t ''drop_location'';
     t_trip_fare \<leftarrow> sql_col t ''trip_fare'';
     let key = (\<lambda>tr. [t_pickup_location tr, t_drop_location tr]);
     Some \<lparr>columns = route_performance_columns,
           rows = map (\<lambda>k. let g = filter (\<lambda>tr. key tr = k) (rows t)
                            in k @ [sql_count g,
                                    cast_numeric (sql_sum (map t_trip_fare g)),
                                    cast_numeric (sql_avg (map t_trip_fare g))])
                    (remdups (map key (rows t)))\<rparr> }"

definition fact_columns :: "string list" where
  "fact_columns =
     [''trip_id'', ''customer_id'', ''customer_name'', ''signup_date'', ''signup_month'',
      ''driver_id'', ''driver_name'', ''vehicle_type'', ''pickup_location'', ''drop_location'',
      ''trip_fare'', ''paid_fare'', ''mode_of_payment'', ''fare_matches'']"

definition fact_trips_dashboard ::
  "dataframe \<Rightarrow> dataframe \<Rightarrow> dataframe \<Rightarrow> dataframe \<Rightarrow> dataframe option" where
  "fact_trips_dashboard t c d p = do {
     t_trip_id \<leftarrow> sql_col t ''trip_id'';
     t_customer_id \<leftarrow> sql_col t ''customer_id'';
     c_customer_name \<leftarrow> sql_col c ''customer_name'';
     c_signup_date \<leftarrow> sql_col c ''signup_date'';
     t_driver_id \<leftarrow> sql_col t ''driver_id'';
     d_driver_name \<leftarrow> sql_col d ''driver_name'';
     d_vehicle_type \<leftarrow> sql_col d ''vehicle_type'';
     t_pickup_location \<leftarrow> sql_col t ''pickup_location'';
     t_drop_location \<leftarrow> sql_col t ''drop_location'';
     t_trip_fare \<leftarrow> sql_col t ''trip_fare'';
     p_trip_fare \<leftarrow> sql_col p ''trip_fare'';
     p_mode_of_payment \<leftarrow> sql_col p ''mode_of_payment'';
     c_customer_id \<leftarrow> sql_col c ''customer_id'';
     d_driver_id \<leftarrow> sql_col d ''driver_id'';
     p_trip_id \<leftarrow> sql_col p ''trip_id'';
     let tc = left_join (\<lambda>tr cr. sql_eq (c_customer_id cr) (t_customer_id tr) = Flag True)
                (rows t) (rows c);
     let tcd = left_join (\<lambda>(tr, cr) dr. sql_eq (d_driver_id dr) (t_driver_id tr) = Flag True)
                 tc (rows d);
     let tcdp = left_join (\<lambda>((tr, cr), dr) pr. sql_eq (p_trip_id pr) (t_trip_id tr) = Flag True)
                  tcd (rows p);
     Some \<lparr>columns = fact_columns,
           rows = map (\<lambda>(((tr, cr), dr), pr).
                    [t_trip_id tr,
                     t_customer_id tr,
                     null_ext c_customer_name cr,
                     null_ext c_signup_date cr,
                     date_trunc_month (null_ext c_signup_date cr),
                     t_driver_id tr,
                     null_ext d_driver_name dr,
                     null_ext d_vehicle_type dr,
                     t_pickup_location tr,
                     t_drop_location tr,
                     t_trip_fare tr,
                     null_ext p_trip_fare pr,
                     coalesce (null_ext p_mode_of_payment pr) (Str ''Unknown''),
                     sql_eq (null_ext p_trip_fare pr) (t_trip_fare tr)]) tcdp\<rparr> }"

text \<open>
  \<open>build_gold\<close> runs in one transaction: each of the three tables is created when it does
  not exist (the fact table from its own query with \<^verbatim>\<open>WHERE 1=0\<close>), truncated and
  refilled, or the statement that fails aborts the whole (\<open>None\<close>).
\<close>

definition build_gold :: "store \<Rightarrow> store option" where
  "build_gold s = do {
     t \<leftarrow> read_sql s ''silver.trips'';
     d \<leftarrow> read_sql s ''silver.drivers'';
     dp \<leftarrow> driver_performance t d;
     rp \<leftarrow> route_performance t;
     c \<leftarrow> read_sql s ''silver.customers'';
     p \<leftarrow> read_sql s ''silver.payments'';
     fact \<leftarrow> fact_trips_dashboard t c d p;
     let s = to_sql_replace ''gold.driver_performance'' dp s;
     let s = to_sql_replace ''gold.route_performance'' rp s;
     let s = to_sql_replace ''gold.fact_trips_dashboard'' fact s;
     Some s }"

section \<open>Reconciliation\<close>

text \<open>\<^verbatim>\<open>float(x)\<close> and \<^verbatim>\<open>int(x)\<close> of a query result: a number, or TypeError.\<close>

fun to_float :: "cell \<Rightarrow> rat option" where
  "to_float (Num q) = Some q"
| "to_float _ = None"

definition reconcile :: "env \<Rightarrow> store \<Rightarrow> store option" where
  "reconcile e s = do {
     st \<leftarrow> read_sql s ''silver.trips'';
     st_fare \<leftarrow> sql_col st ''trip_fare'';
     silver_trips_sum \<leftarrow> to_float (coalesce (sql_sum (map st_fare (rows st))) (Num 0));
     sp \<leftarrow> read_sql s ''silver.payments'';
     sp_fare \<leftarrow> sql_col sp ''trip_fare'';
     silver_pay_sum \<leftarrow> to_float (coalesce (sql_sum (map sp_fare (rows sp))) (Num 0));
     gf \<leftarrow> read_sql s ''gold.fact_trips_dashboard'';
     gf_fare \<leftarrow> sql_col gf ''trip_fare'';
     gold_fact_sum \<leftarrow> to_float (coalesce (sql_sum (map gf_fare (rows gf))) (Num 0));
     trips_count_s \<leftarrow> to_float (sql_count (rows st));
     pays_count_s \<leftarrow> to_float (sql_count (rows sp));
     fact_count_g \<leftarrow> to_float (sql_count (rows gf));
     let results =
       [Num silver_trips_sum,
        Num silver_pay_sum,
        Num gold_fact_sum,
        Num trips_count_s,
        Num pays_count_s,
        Num fact_count_g,
        Num (float64 (silver_trips_sum - silver_pay_sum)),
        Num (float64 (silver_trips_sum - gold_fact_sum)),
        Num (trips_count_s - fact_count_g)];
     log_reconciliation e results s }"

section \<open>Bronze and the command line\<close>

text \<open>
  \<open>load_bronze\<close>: the CSV extracts are an input (\<open>None\<close> for a file that is missing,
  which is skipped); each one replaces its Bronze table and is logged. The schemas that
  \<open>ensure_schemas\<close> creates are part of the qualified table names.
\<close>

fun load_bronze_files :: "env \<Rightarrow> (string \<times> dataframe option) list \<Rightarrow> store \<Rightarrow> store" where
  "load_bronze_files e [] s = s"
| "load_bronze_files e ((table, None) # fs) s = load_bronze_files e fs s"
| "load_bronze_files e ((table, Some df) # fs) s =
     load_bronze_files e fs
       (log_rows_and_checksum e df ''bronze'' table (to_sql_replace (''bronze.'' @ table) df s))"

record raw_store =
  raw_customers :: "dataframe option"
  raw_drivers :: "dataframe option"
  raw_trips :: "dataframe option"
  raw_payments :: "dataframe option"

definition load_bronze :: "env \<Rightarrow> raw_store \<Rightarrow> store \<Rightarrow> store" where
  "load_bronze e raw s =
     load_bronze_files e
       [(''customers'', raw_customers raw), (''drivers'', raw_drivers raw),
        (''trips'', raw_trips raw), (''payments'', raw_payments raw)] s"

datatype step = Step_extract | Step_load_bronze | Step_build_silver | Step_build_gold | Step_all

definition main :: "env \<Rightarrow> raw_store \<Rightarrow> step \<Rightarrow> store \<Rightarrow> store option" where
  "main e raw step s = do {
     s \<leftarrow> (if step \<in> {Step_extract, Step_load_bronze, Step_all} then Some (load_bronze e raw s) else Some s);
     s \<leftarrow> (if step \<in> {Step_build_silver, Step_all} then build_silver e s else Some s);
     s \<leftarrow> (if step \<in> {Step_build_gold, Step_all}
           then do { s \<leftarrow> build_gold s; reconcile e s }
           else Some s);
     Some s }"

section \<open>Reading a row by column name\<close>

text \<open>
  The theorems name cells by column: \<open>cell_of cols c r\<close> is the cell of row \<open>r\<close> under
  column \<open>c\<close> of a frame with columns \<open>cols\<close>, and \<open>coerce_row cols c f r\<close> is the row
  with \<open>f\<close> applied to that cell.
\<close>

definition cell_of :: "string list \<Rightarrow> string \<Rightarrow> cell list \<Rightarrow> cell" where
  "cell_of cols c r = (case index_of c cols of None \<Rightarrow> Null | Some i \<Rightarrow> cell_at i r)"

definition coerce_row :: "string list \<Rightarrow> string \<Rightarrow> (cell \<Rightarrow> cell) \<Rightarrow> cell list \<Rightarrow> cell list" where
  "coerce_row cols c f r =
     (case index_of c cols of None \<Rightarrow> r | Some i \<Rightarrow> r[i := f (cell_at i r)])"

text \<open>
  The deduplication of a table by a key, as a relation between the rows that go in and
  the rows that come out: there are as many rows out as there are distinct keys in, no
  key occurs twice among them, every key that goes in comes out, and every row that
  comes out is the first row, in the order of the input, that carries its key.
\<close>

definition first_per_key :: "('a \<Rightarrow> 'k) \<Rightarrow> 'a list \<Rightarrow> 'a list \<Rightarrow> bool" where
  "first_per_key key ins outs \<longleftrightarrow>
     length outs = card (key ` set ins)
     \<and> distinct (map key outs)
     \<and> key ` set outs = key ` set ins
     \<and> (\<forall>r \<in> set outs. find (\<lambda>x. key x = key r) ins = Some r)"

text \<open>
  The coercion of the typed column \<open>c\<close> of one row, as a relation between the row \<open>r0\<close>
  before and the row \<open>r\<close> after: the row keeps its length, the typed cell is the coerced
  one, it is null when the value fails to parse, and the cell of every other column
  stays.
\<close>

definition coerced_from ::
  "string list \<Rightarrow> string \<Rightarrow> (cell \<Rightarrow> cell) \<Rightarrow> (cell \<Rightarrow> bool) \<Rightarrow> cell list \<Rightarrow> cell list \<Rightarrow> bool" where
  "coerced_from cols c f fails r0 r \<longleftrightarrow>
     length r = length r0
     \<and> cell_of cols c r = f (cell_of cols c r0)
     \<and> (fails (cell_of cols c r0) \<longrightarrow> cell_of cols c r = Null)
     \<and> (\<forall>a \<in> set cols. a \<noteq> c \<longrightarrow> cell_of cols a r = cell_of cols a r0)"

text \<open>The columns that the Silver build reads by name; \<open>vehicle_type\<close> is not one of them.\<close>

definition silver_columns_present ::
  "dataframe \<Rightarrow> dataframe \<Rightarrow> dataframe \<Rightarrow> dataframe \<Rightarrow> bool" where
  "silver_columns_present bc bd bt bp \<longleftrightarrow>
     ''customer_id'' \<in> set (columns bc) \<and> ''signup_date'' \<in> set (columns bc)
     \<and> ''driver_id'' \<in> set (columns bd)
     \<and> ''trip_id'' \<in> set (columns bt) \<and> ''customer_id'' \<in> set (columns bt)
     \<and> ''driver_id'' \<in> set (columns bt) \<and> ''trip_fare'' \<in> set (columns bt)
     \<and> ''payment_id'' \<in> set (columns bp) \<and> ''trip_id'' \<in> set (columns bp)
     \<and> ''trip_fare'' \<in> set (columns bp)"

text \<open>
  An environment for concrete runs: a number parses as itself, a timestamp or date as
  itself, a text does not parse; the digest is the header line; the clock counts seconds.
\<close>

definition demo_env :: env where
  "demo_env =
     \<lparr>to_numeric_val = (\<lambda>c. case c of Num q \<Rightarrow> Some q | _ \<Rightarrow> None),
      to_datetime_val = (\<lambda>c. case c of Stamp y m d t \<Rightarrow> Some (y, m, d, t)
                                      | Day y m d \<Rightarrow> Some (y, m, d, 0)
                                      | _ \<Rightarrow> None),
      md5 = (\<lambda>df. concat (columns df)),
      clock = (\<lambda>n. Stamp 2024 1 1 n)\<rparr>"

definition empty_store :: store where
  "empty_store = \<lparr>tables = Map.empty, files = Map.empty, console = [], ticks = 0\<rparr>"

definition customers_columns :: "string list" where
  "customers_columns = [''customer_id'', ''customer_name'', ''signup_date'']"

definition drivers_columns :: "string list" where
  "drivers_columns = [''driver_id'', ''driver_name'', ''vehicle_type'']"

definition trips_columns :: "string list" where
  "trips_columns =
     [''trip_id'', ''customer_id'', ''driver_id'', ''pickup_location'', ''drop_location'',
      ''trip_fare'']"

definition payments_columns :: "string list" where
  "payments_columns = [''payment_id'', ''trip_id'', ''trip_fare'', ''mode_of_payment'']"


definition silver_store ::
  "cell list list \<Rightarrow> cell list list \<Rightarrow> cell list list \<Rightarrow> cell list list \<Rightarrow> store" where
  "silver_store cs ds ts ps =
     empty_store\<lparr>tables :=
       [''silver.customers'' \<mapsto> \<lparr>columns = customers_columns, rows = cs\<rparr>,
        ''silver.drivers'' \<mapsto> \<lparr>columns = drivers_columns, rows = ds\<rparr>,
        ''silver.trips'' \<mapsto> \<lparr>columns = trips_columns, rows = ts\<rparr>,
        ''silver.payments'' \<mapsto> \<lparr>columns = payments_columns, rows = ps\<rparr>]\<rparr>"

text \<open>
  The table a statement finds after \<^verbatim>\<open>CREATE TABLE IF NOT EXISTS\<close>, and the condition
  under which the data-quality record can be inserted into \<^verbatim>\<open>audit.rejected_rows\<close>.
\<close>

definition table_or_new :: "store \<Rightarrow> string \<Rightarrow> string list \<Rightarrow> dataframe" where
  "table_or_new s t cols =
     (case tables s t of None \<Rightarrow> \<lparr>columns = cols, rows = []\<rparr> | Some old \<Rightarrow> old)"

definition dq_ready :: "store \<Rightarrow> bool" where
  "dq_ready s =
     (set dq_columns \<subseteq> set (columns (table_or_new s ''audit.rejected_rows'' dq_columns)))"

text \<open>
  Append-only: \<open>keeps_records old new\<close> holds when the table or file \<open>new\<close> still has
  every record of \<open>old\<close>, at the same position and with the same cell under every column
  of \<open>old\<close>. \<open>audit_kept s s'\<close> says so for the two audit tables and the
  reconciliation file.
\<close>

definition keeps_records :: "dataframe option \<Rightarrow> dataframe option \<Rightarrow> bool" where
  "keeps_records old new =
     (case old of
        None \<Rightarrow> True
      | Some a \<Rightarrow>
          (case new of
             None \<Rightarrow> False
           | Some b \<Rightarrow>
               set (columns a) \<subseteq> set (columns b)
               \<and> length (rows a) \<le> length (rows b)
               \<and> (\<forall>k \<in> set [0..<length (rows a)]. \<forall>c \<in> set (columns a).
                     cell_of (columns b) c (rows b ! k) = cell_of (columns a) c (rows a ! k))))"

definition audit_kept :: "store \<Rightarrow> store \<Rightarrow> bool" where
  "audit_kept s s' =
     (keeps_records (tables s ''audit.rejected_rows'') (tables s' ''audit.rejected_rows'')
      \<and> keeps_records (tables s ''audit.reconciliation_log'')
            (tables s' ''audit.reconciliation_log'')
      \<and> keeps_records (files s ''log/gold/reconciliation.csv'')
            (files s' ''log/gold/reconciliation.csv''))"

definition file_of :: "string \<Rightarrow> store option \<Rightarrow> dataframe option" where
  "file_of f so = (case so of None \<Rightarrow> None | Some s \<Rightarrow> files s f)"

definition demo_raw :: "cell list list \<Rightarrow> raw_store" where
  "demo_raw cs =
     \<lparr>raw_customers = Some \<lparr>columns = customers_columns, rows = cs\<rparr>,
      raw_drivers = Some \<lparr>columns = drivers_columns, rows = [[Str ''D1'', Str ''Bob'', Str ''Sedan'']]\<rparr>,
      raw_trips = Some \<lparr>columns = trips_columns,
                        rows = [[Str ''T1'', Str ''C1'', Str ''D1'', Str ''A'', Str ''B'', Num 100]]\<rparr>,
      raw_payments = Some \<lparr>columns = payments_columns,
                           rows = [[Str ''P1'', Str ''T1'', Num 100, Str ''Card'']]\<rparr>\<rparr>"

section \<open>Deduplication\<close>

lemma keep_first_keys:
  "set (map key (keep_first key seen rs)) = key ` set rs - set seen"
  by (induction rs arbitrary: seen) auto

lemma keep_first_subset: "set (keep_first key seen rs) \<subseteq> set rs"
  by (induction rs arbitrary: seen) auto

lemma keep_first_distinct: "distinct (map key (keep_first key seen rs))"
proof (induction rs arbitrary: seen)
  case Nil
  show ?case by simp
next
  case (Cons r rs)
  have "key r \<notin> set (map key (keep_first key (key r # seen) rs))"
    unfolding keep_first_keys by simp
  with Cons show ?case by simp
qed

lemma keep_first_length:
  "length (keep_first key seen rs) = card (key ` set rs - set seen)"
proof -
  have "length (keep_first key seen rs) = length (map key (keep_first key seen rs))"
    by simp
  also have "\<dots> = card (set (map key (keep_first key seen rs)))"
    using keep_first_distinct [of key seen rs] by (simp only: distinct_card)
  finally show ?thesis by (simp only: keep_first_keys)
qed

lemma keep_first_find:
  "r \<in> set (keep_first key seen rs) \<Longrightarrow> find (\<lambda>x. key x = key r) rs = Some r"
proof (induction rs arbitrary: seen)
  case Nil
  then show ?case by simp
next
  case (Cons a rs)
  show ?case
  proof (cases "key a \<in> set seen")
    case True
    with Cons.prems have in_rest: "r \<in> set (keep_first key seen rs)" by simp
    then have "key r \<in> set (map key (keep_first key seen rs))" by simp
    then have "key r \<notin> set seen" unfolding keep_first_keys by simp
    with True have "key a \<noteq> key r" by auto
    with Cons.IH [OF in_rest] show ?thesis by simp
  next
    case False
    with Cons.prems have "r = a \<or> r \<in> set (keep_first key (key a # seen) rs)" by auto
    then show ?thesis
    proof
      assume "r = a"
      then show ?thesis by simp
    next
      assume in_rest: "r \<in> set (keep_first key (key a # seen) rs)"
      then have "key r \<in> set (map key (keep_first key (key a # seen) rs))" by simp
      then have "key a \<noteq> key r" unfolding keep_first_keys by auto
      with Cons.IH [OF in_rest] show ?thesis by simp
    qed
  qed
qed

lemma keep_first_mem:
  "find (\<lambda>x. key x = key r) rs = Some r \<Longrightarrow> key r \<notin> set seen
   \<Longrightarrow> r \<in> set (keep_first key seen rs)"
proof (induction rs arbitrary: seen)
  case Nil
  then show ?case by simp
next
  case (Cons a rs)
  show ?case
  proof (cases "key a = key r")
    case True
    with Cons.prems show ?thesis by simp
  next
    case False
    with Cons.prems have rest: "find (\<lambda>x. key x = key r) rs = Some r" by simp
    from False Cons.prems(2) have "key r \<notin> set (key a # seen)" by auto
    from Cons.IH [OF rest this] Cons.IH [OF rest Cons.prems(2)] show ?thesis by simp
  qed
qed

lemma keep_first_first_per_key: "first_per_key key rs (keep_first key [] rs)"
proof -
  have "length (keep_first key [] rs) = card (key ` set rs)"
    by (simp add: keep_first_length)
  moreover have "key ` set (keep_first key [] rs) = key ` set rs"
    using keep_first_keys [of key "[]" rs] by simp
  moreover have "\<forall>r \<in> set (keep_first key [] rs). find (\<lambda>x. key x = key r) rs = Some r"
    by (simp add: keep_first_find)
  ultimately show ?thesis
    unfolding first_per_key_def using keep_first_distinct [of key "[]" rs] by blast
qed

section \<open>Columns, masks and the Silver frames\<close>

lemma zip_mask_filter: "map fst (filter snd (zip xs (map p xs))) = filter p xs"
  by (induction xs) auto

lemma index_of_Some: "index_of c xs = Some i \<Longrightarrow> i < length xs \<and> xs ! i = c"
  by (induction xs arbitrary: i) (auto split: if_splits)

lemma index_of_None: "index_of c xs = None \<longleftrightarrow> c \<notin> set xs"
  by (induction xs) auto

lemma index_of_mem: "index_of c xs = Some i \<Longrightarrow> c \<in> set xs"
  using index_of_None [of c xs] by auto

lemma cell_of_index: "index_of c cols = Some i \<Longrightarrow> cell_of cols c = cell_at i"
  by (rule ext) (simp add: cell_of_def)

lemma coerce_row_index: "index_of c cols = Some i \<Longrightarrow> coerce_row cols c f = (\<lambda>r. r[i := f (cell_at i r)])"
  by (rule ext) (simp add: coerce_row_def)

lemma select_rows_columns: "columns (select_rows df m) = columns df"
  by (simp add: select_rows_def)

lemma select_rows_isin:
  "rows (select_rows df (isin (map g (rows df)) vals)) = filter (\<lambda>r. g r \<in> set vals) (rows df)"
  using zip_mask_filter [of "rows df" "\<lambda>r. g r \<in> set vals"]
  by (simp add: select_rows_def isin_def comp_def)

lemma get_column_Some:
  "get_column df c = Some col \<Longrightarrow>
   c \<in> set (columns df) \<and> col = map (cell_of (columns df) c) (rows df)"
  by (auto simp: get_column_def cell_of_index index_of_mem)

lemma drop_duplicates_Some:
  "drop_duplicates df c = Some out \<Longrightarrow>
   c \<in> set (columns df) \<and> columns out = columns df
   \<and> rows out = keep_first (cell_of (columns df) c) [] (rows df)"
  by (auto simp: drop_duplicates_def cell_of_index index_of_mem)

lemma map_column_Some:
  "map_column f df c = Some out \<Longrightarrow>
   c \<in> set (columns df) \<and> columns out = columns df
   \<and> rows out = map (coerce_row (columns df) c f) (rows df)"
  by (auto simp: map_column_def coerce_row_index index_of_mem)

lemma cell_of_coerce_row_other:
  assumes "a \<noteq> b"
  shows "cell_of cols a (coerce_row cols b f r) = cell_of cols a r"
proof (cases "index_of a cols")
  case None
  then show ?thesis by (simp add: cell_of_def)
next
  case (Some i)
  show ?thesis
  proof (cases "index_of b cols")
    case None
    then show ?thesis by (simp add: coerce_row_def)
  next
    case (Some j)
    from \<open>index_of a cols = Some i\<close> Some assms have "i \<noteq> j"
      using index_of_Some by metis
    with \<open>index_of a cols = Some i\<close> Some show ?thesis
      by (simp add: cell_of_def coerce_row_def cell_at_def)
  qed
qed

lemma cell_of_coerce_row_same:
  assumes "f Null = Null" and "b \<in> set cols"
  shows "cell_of cols b (coerce_row cols b f r) = f (cell_of cols b r)"
proof -
  from assms(2) obtain i where "index_of b cols = Some i"
    using index_of_None [of b cols] by auto
  with assms(1) show ?thesis
    by (simp add: cell_of_def coerce_row_def cell_at_def)
qed

lemma silver_frames_Some:
  assumes "silver_frames e bc bd bt bp = Some (c, d, t, p)"
  shows "columns c = columns bc \<and> columns d = columns bd
       \<and> columns t = columns bt \<and> columns p = columns bp
       \<and> rows c = map (coerce_row (columns bc) ''signup_date'' (to_datetime_coerce e))
                    (keep_first (cell_of (columns bc) ''customer_id'') [] (rows bc))
       \<and> rows d = (if ''vehicle_type'' \<in> set (columns bd)
            then filter (\<lambda>r. cell_of (columns bd) ''vehicle_type'' r \<in> set VALID_VEHICLE_TYPES)
                   (keep_first (cell_of (columns bd) ''driver_id'') [] (rows bd))
            else keep_first (cell_of (columns bd) ''driver_id'') [] (rows bd))
       \<and> rows t =
          filter (\<lambda>r. cell_of (columns bt) ''driver_id'' r \<in> set (map (cell_of (columns bd) ''driver_id'') (rows d)))
           (filter (\<lambda>r. cell_of (columns bt) ''customer_id'' r \<in> set (map (cell_of (columns bc) ''customer_id'') (rows c)))
             (map (coerce_row (columns bt) ''trip_fare'' (to_numeric_coerce e))
               (keep_first (cell_of (columns bt) ''trip_id'') [] (rows bt))))
       \<and> rows p =
          filter (\<lambda>r. cell_of (columns bp) ''trip_id'' r \<in> set (map (cell_of (columns bt) ''trip_id'') (rows t)))
           (map (coerce_row (columns bp) ''trip_fare'' (to_numeric_coerce e))
              (keep_first (cell_of (columns bp) ''payment_id'') [] (rows bp)))
       \<and> ''trip_fare'' \<in> set (columns bt) \<and> ''trip_fare'' \<in> set (columns bp)
       \<and> ''signup_date'' \<in> set (columns bc) \<and> ''customer_id'' \<in> set (columns bc)
       \<and> ''driver_id'' \<in> set (columns bd) \<and> ''trip_id'' \<in> set (columns bt)
       \<and> ''customer_id'' \<in> set (columns bt) \<and> ''driver_id'' \<in> set (columns bt)
       \<and> ''payment_id'' \<in> set (columns bp) \<and> ''trip_id'' \<in> set (columns bp)"
proof -
  from assms obtain c1 d1 t1 p1 t2 p2 tc cc td dd pt tt where
      c1: "drop_duplicates bc ''customer_id'' = Some c1"
    and d1: "drop_duplicates bd ''driver_id'' = Some d1"
    and t1: "drop_duplicates bt ''trip_id'' = Some t1"
    and p1: "drop_duplicates bp ''payment_id'' = Some p1"
    and c: "map_column (to_datetime_coerce e) c1 ''signup_date'' = Some c"
    and t2: "map_column (to_numeric_coerce e) t1 ''trip_fare'' = Some t2"
    and p2: "map_column (to_numeric_coerce e) p1 ''trip_fare'' = Some p2"
    and d: "(if ''vehicle_type'' \<in> set (columns d1)
             then Option.bind (get_column d1 ''vehicle_type'')
                    (\<lambda>vt. Some (select_rows d1 (isin vt VALID_VEHICLE_TYPES)))
             else Some d1) = Some d"
    and tc: "get_column t2 ''customer_id'' = Some tc"
    and cc: "get_column c ''customer_id'' = Some cc"
    and td: "get_column (select_rows t2 (isin tc cc)) ''driver_id'' = Some td"
    and dd: "get_column d ''driver_id'' = Some dd"
    and t: "t = select_rows (select_rows t2 (isin tc cc)) (isin td dd)"
    and pt: "get_column p2 ''trip_id'' = Some pt"
    and tt: "get_column t ''trip_id'' = Some tt"
    and p: "p = select_rows p2 (isin pt tt)"
    unfolding silver_frames_def Let_def bind_eq_Some_conv by blast
  note c1' = drop_duplicates_Some [OF c1] and d1' = drop_duplicates_Some [OF d1]
    and t1' = drop_duplicates_Some [OF t1] and p1' = drop_duplicates_Some [OF p1]
  note c' = map_column_Some [OF c] and t2' = map_column_Some [OF t2]
    and p2' = map_column_Some [OF p2]
  have cols: "columns c = columns bc" "columns t2 = columns bt" "columns p2 = columns bp"
    using c1' c' t1' t2' p1' p2' by simp_all
  have rc: "rows c = map (coerce_row (columns bc) ''signup_date'' (to_datetime_coerce e))
                    (keep_first (cell_of (columns bc) ''customer_id'') [] (rows bc))"
    using c1' c' by simp
  have dcols: "columns d = columns bd"
    using d d1' by (auto simp: select_rows_columns bind_eq_Some_conv split: if_splits)
  have rd: "rows d = (if ''vehicle_type'' \<in> set (columns bd)
            then filter (\<lambda>r. cell_of (columns bd) ''vehicle_type'' r \<in> set VALID_VEHICLE_TYPES)
                   (keep_first (cell_of (columns bd) ''driver_id'') [] (rows bd))
            else keep_first (cell_of (columns bd) ''driver_id'') [] (rows bd))"
  proof (cases "''vehicle_type'' \<in> set (columns bd)")
    case True
    with d d1' obtain vt where vt: "get_column d1 ''vehicle_type'' = Some vt"
      and "d = select_rows d1 (isin vt VALID_VEHICLE_TYPES)"
      by (auto simp: bind_eq_Some_conv)
    note this(2)
    moreover from get_column_Some [OF vt]
    have "vt = map (cell_of (columns d1) ''vehicle_type'') (rows d1)" by simp
    ultimately have "rows d = filter (\<lambda>r. cell_of (columns d1) ''vehicle_type'' r \<in> set VALID_VEHICLE_TYPES) (rows d1)"
      by (simp only: select_rows_isin)
    with d1' True show ?thesis by simp
  next
    case False
    with d d1' show ?thesis by simp
  qed
  have tcols: "columns t = columns bt"
    using t cols by (simp add: select_rows_columns)
  have rt: "rows t =
          filter (\<lambda>r. cell_of (columns bt) ''driver_id'' r \<in> set (map (cell_of (columns bd) ''driver_id'') (rows d)))
           (filter (\<lambda>r. cell_of (columns bt) ''customer_id'' r \<in> set (map (cell_of (columns bc) ''customer_id'') (rows c)))
             (map (coerce_row (columns bt) ''trip_fare'' (to_numeric_coerce e))
               (keep_first (cell_of (columns bt) ''trip_id'') [] (rows bt))))"
  proof -
    let ?t3 = "select_rows t2 (isin tc cc)"
    have "tc = map (cell_of (columns bt) ''customer_id'') (rows t2)"
      using get_column_Some [OF tc] cols by simp
    moreover have "cc = map (cell_of (columns bc) ''customer_id'') (rows c)"
      using get_column_Some [OF cc] cols by simp
    ultimately have t3: "rows ?t3 =
        filter (\<lambda>r. cell_of (columns bt) ''customer_id'' r \<in> set (map (cell_of (columns bc) ''customer_id'') (rows c)))
          (rows t2)"
      by (simp only: select_rows_isin)
    have "td = map (cell_of (columns bt) ''driver_id'') (rows ?t3)"
      using get_column_Some [OF td] cols by (simp add: select_rows_columns)
    moreover have "dd = map (cell_of (columns bd) ''driver_id'') (rows d)"
      using get_column_Some [OF dd] dcols by simp
    ultimately have "rows t =
          filter (\<lambda>r. cell_of (columns bt) ''driver_id'' r \<in> set (map (cell_of (columns bd) ''driver_id'') (rows d)))
            (rows ?t3)"
      unfolding t by (simp only: select_rows_isin)
    moreover have "rows t2 = map (coerce_row (columns bt) ''trip_fare'' (to_numeric_coerce e))
               (keep_first (cell_of (columns bt) ''trip_id'') [] (rows bt))"
      using t1' t2' by simp
    ultimately show ?thesis using t3 by (simp only:)
  qed
  have rp: "rows p =
          filter (\<lambda>r. cell_of (columns bp) ''trip_id'' r \<in> set (map (cell_of (columns bt) ''trip_id'') (rows t)))
           (map (coerce_row (columns bp) ''trip_fare'' (to_numeric_coerce e))
              (keep_first (cell_of (columns bp) ''payment_id'') [] (rows bp)))"
  proof -
    have "pt = map (cell_of (columns bp) ''trip_id'') (rows p2)"
      using get_column_Some [OF pt] cols by simp
    moreover have "tt = map (cell_of (columns bt) ''trip_id'') (rows t)"
      using get_column_Some [OF tt] tcols by simp
    ultimately have "rows p =
          filter (\<lambda>r. cell_of (columns bp) ''trip_id'' r \<in> set (map (cell_of (columns bt) ''trip_id'') (rows t)))
           (rows p2)"
      unfolding p by (simp only: select_rows_isin)
    moreover have "rows p2 = map (coerce_row (columns bp) ''trip_fare'' (to_numeric_coerce e))
              (keep_first (cell_of (columns bp) ''payment_id'') [] (rows bp))"
      using p1' p2' by simp
    ultimately show ?thesis by (simp only:)
  qed
  have "columns p = columns bp"
    using p cols by (simp add: select_rows_columns)
  moreover have "''trip_fare'' \<in> set (columns bt)" "''trip_fare'' \<in> set (columns bp)"
     "''signup_date'' \<in> set (columns bc)" "''customer_id'' \<in> set (columns bc)"
     "''driver_id'' \<in> set (columns bd)" "''trip_id'' \<in> set (columns bt)"
     "''payment_id'' \<in> set (columns bp)"
    using t1' t2' p1' p2' c1' c' d1' by simp_all
  moreover have "''customer_id'' \<in> set (columns bt)" "''driver_id'' \<in> set (columns bt)"
     "''trip_id'' \<in> set (columns bp)"
    using get_column_Some [OF tc] get_column_Some [OF td] get_column_Some [OF pt] cols
    by (simp_all add: select_rows_columns)
  ultimately show ?thesis
    using cols dcols tcols rc rd rt rp by simp
qed

lemma silver_frames_columns:
  assumes "silver_frames e bc bd bt bp = Some (c, d, t, p)"
  shows "columns c = columns bc" and "columns d = columns bd"
    and "columns t = columns bt" and "columns p = columns bp"
  using silver_frames_Some [OF assms] by blast+

lemma silver_frames_required:
  assumes "silver_frames e bc bd bt bp = Some (c, d, t, p)"
  shows "''trip_fare'' \<in> set (columns bt)" and "''trip_fare'' \<in> set (columns bp)"
    and "''signup_date'' \<in> set (columns bc)" and "''customer_id'' \<in> set (columns bc)"
    and "''driver_id'' \<in> set (columns bd)" and "''trip_id'' \<in> set (columns bt)"
    and "''customer_id'' \<in> set (columns bt)" and "''driver_id'' \<in> set (columns bt)"
    and "''payment_id'' \<in> set (columns bp)" and "''trip_id'' \<in> set (columns bp)"
  using silver_frames_Some [OF assms] by blast+

lemma silver_customers_rows:
  assumes "silver_frames e bc bd bt bp = Some (c, d, t, p)"
  shows "rows c = map (coerce_row (columns bc) ''signup_date'' (to_datetime_coerce e))
                    (keep_first (cell_of (columns bc) ''customer_id'') [] (rows bc))"
  using silver_frames_Some [OF assms] by blast

lemma silver_drivers_rows:
  assumes "silver_frames e bc bd bt bp = Some (c, d, t, p)"
  shows "rows d = (if ''vehicle_type'' \<in> set (columns bd)
            then filter (\<lambda>r. cell_of (columns bd) ''vehicle_type'' r \<in> set VALID_VEHICLE_TYPES)
                   (keep_first (cell_of (columns bd) ''driver_id'') [] (rows bd))
            else keep_first (cell_of (columns bd) ''driver_id'') [] (rows bd))"
  using silver_frames_Some [OF assms] by blast

lemma silver_trips_rows:
  assumes "silver_frames e bc bd bt bp = Some (c, d, t, p)"
  shows "rows t =
          filter (\<lambda>r. cell_of (columns bt) ''driver_id'' r \<in> set (map (cell_of (columns bd) ''driver_id'') (rows d)))
           (filter (\<lambda>r. cell_of (columns bt) ''customer_id'' r \<in> set (map (cell_of (columns bc) ''customer_id'') (rows c)))
             (map (coerce_row (columns bt) ''trip_fare'' (to_numeric_coerce e))
               (keep_first (cell_of (columns bt) ''trip_id'') [] (rows bt))))"
  using silver_frames_Some [OF assms] by blast

lemma silver_payments_rows:
  assumes "silver_frames e bc bd bt bp = Some (c, d, t, p)"
  shows "rows p =
          filter (\<lambda>r. cell_of (columns bp) ''trip_id'' r \<in> set (map (cell_of (columns bt) ''trip_id'') (rows t)))
           (map (coerce_row (columns bp) ''trip_fare'' (to_numeric_coerce e))
              (keep_first (cell_of (columns bp) ''payment_id'') [] (rows bp)))"
  using silver_frames_Some [OF assms] by blast

section \<open>Deduplication in the Silver build\<close>

text \<open>
  C6. In a Silver build that returns, each of the four entity tables goes through the
  deduplication by its natural key (\<open>customer_id\<close>, \<open>driver_id\<close>, \<open>trip_id\<close>,
  \<open>payment_id\<close>): the rows that the later steps work on are, for a Bronze table in which
  K distinct keys occur, exactly K rows with K distinct keys, each of them the first
  Bronze row, in input order, that carries its key. The Silver customers are these rows
  with the signup date coerced, so there are exactly K of them; the Silver drivers, trips
  and payments are these rows after the coercion of the fare and the filters on the
  vehicle type and on the foreign keys.
\<close>

theorem silver_dedup_first_per_key:
  assumes "silver_frames e bc bd bt bp = Some (c, d, t, p)"
  shows "\<exists>c1 d1 t1 p1.
           first_per_key (cell_of (columns bc) ''customer_id'') (rows bc) c1
         \<and> first_per_key (cell_of (columns bd) ''driver_id'') (rows bd) d1
         \<and> first_per_key (cell_of (columns bt) ''trip_id'') (rows bt) t1
         \<and> first_per_key (cell_of (columns bp) ''payment_id'') (rows bp) p1
         \<and> rows c = map (coerce_row (columns bc) ''signup_date'' (to_datetime_coerce e)) c1
         \<and> length (rows c) = card (cell_of (columns bc) ''customer_id'' ` set (rows bc))
         \<and> rows d = (if ''vehicle_type'' \<in> set (columns bd)
              then filter (\<lambda>r. cell_of (columns bd) ''vehicle_type'' r \<in> set VALID_VEHICLE_TYPES) d1
              else d1)
         \<and> rows t =
             filter (\<lambda>r. cell_of (columns bt) ''driver_id'' r
                          \<in> set (map (cell_of (columns bd) ''driver_id'') (rows d)))
               (filter (\<lambda>r. cell_of (columns bt) ''customer_id'' r
                            \<in> set (map (cell_of (columns bc) ''customer_id'') (rows c)))
                  (map (coerce_row (columns bt) ''trip_fare'' (to_numeric_coerce e)) t1))
         \<and> rows p =
             filter (\<lambda>r. cell_of (columns bp) ''trip_id'' r
                          \<in> set (map (cell_of (columns bt) ''trip_id'') (rows t)))
               (map (coerce_row (columns bp) ''trip_fare'' (to_numeric_coerce e)) p1)"
proof -
  let ?c1 = "keep_first (cell_of (columns bc) ''customer_id'') [] (rows bc)"
  let ?d1 = "keep_first (cell_of (columns bd) ''driver_id'') [] (rows bd)"
  let ?t1 = "keep_first (cell_of (columns bt) ''trip_id'') [] (rows bt)"
  let ?p1 = "keep_first (cell_of (columns bp) ''payment_id'') [] (rows bp)"
  have len: "length (rows c) = card (cell_of (columns bc) ''customer_id'' ` set (rows bc))"
    unfolding silver_customers_rows [OF assms] by (simp add: keep_first_length)
  show ?thesis
    by (rule exI [of _ ?c1], rule exI [of _ ?d1], rule exI [of _ ?t1], rule exI [of _ ?p1])
       (intro conjI keep_first_first_per_key len silver_customers_rows [OF assms]
          silver_drivers_rows [OF assms] silver_trips_rows [OF assms]
          silver_payments_rows [OF assms])
qed

theorem silver_dedup_first_per_key_witness:
  "silver_frames demo_env
     \<lparr>columns = customers_columns,
      rows = [[Str ''C1'', Str ''Alice'', Day 2024 1 10], [Str ''C2'', Str ''Carol'', Day 2024 2 2],
              [Str ''C1'', Str ''Alicia'', Day 2024 3 3]]\<rparr>
     \<lparr>columns = drivers_columns,
      rows = [[Str ''D1'', Str ''Bob'', Str ''Sedan''], [Str ''D1'', Str ''Rob'', Str ''SUV'']]\<rparr>
     \<lparr>columns = trips_columns,
      rows = [[Str ''T1'', Str ''C1'', Str ''D1'', Str ''A'', Str ''B'', Num 100],
              [Str ''T1'', Str ''C2'', Str ''D1'', Str ''A'', Str ''B'', Num 5]]\<rparr>
     \<lparr>columns = payments_columns, rows = []\<rparr>
   = Some (\<lparr>columns = customers_columns,
            rows = [[Str ''C1'', Str ''Alice'', Stamp 2024 1 10 0],
                    [Str ''C2'', Str ''Carol'', Stamp 2024 2 2 0]]\<rparr>,
           \<lparr>columns = drivers_columns, rows = [[Str ''D1'', Str ''Bob'', Str ''Sedan'']]\<rparr>,
           \<lparr>columns = trips_columns,
            rows = [[Str ''T1'', Str ''C1'', Str ''D1'', Str ''A'', Str ''B'', Num 100]]\<rparr>,
           \<lparr>columns = payments_columns, rows = []\<rparr>)
   \<and> (\<exists>c1. first_per_key (cell_of customers_columns ''customer_id'')
              [[Str ''C1'', Str ''Alice'', Day 2024 1 10], [Str ''C2'', Str ''Carol'', Day 2024 2 2],
               [Str ''C1'', Str ''Alicia'', Day 2024 3 3]] c1
          \<and> [[Str ''C1'', Str ''Alice'', Stamp 2024 1 10 0],
              [Str ''C2'', Str ''Carol'', Stamp 2024 2 2 0]]
             = map (coerce_row customers_columns ''signup_date'' (to_datetime_coerce demo_env)) c1)
   \<and> card (cell_of customers_columns ''customer_id'' `
         set [[Str ''C1'', Str ''Alice'', Day 2024 1 10], [Str ''C2'', Str ''Carol'', Day 2024 2 2],
              [Str ''C1'', Str ''Alicia'', Day 2024 3 3]]) = 2"
proof -
  let ?bc = "\<lparr>columns = customers_columns,
      rows = [[Str ''C1'', Str ''Alice'', Day 2024 1 10], [Str ''C2'', Str ''Carol'', Day 2024 2 2],
              [Str ''C1'', Str ''Alicia'', Day 2024 3 3]]\<rparr>"
  let ?bd = "\<lparr>columns = drivers_columns,
      rows = [[Str ''D1'', Str ''Bob'', Str ''Sedan''], [Str ''D1'', Str ''Rob'', Str ''SUV'']]\<rparr>"
  let ?bt = "\<lparr>columns = trips_columns,
      rows = [[Str ''T1'', Str ''C1'', Str ''D1'', Str ''A'', Str ''B'', Num 100],
              [Str ''T1'', Str ''C2'', Str ''D1'', Str ''A'', Str ''B'', Num 5]]\<rparr>"
  let ?bp = "\<lparr>columns = payments_columns, rows = []\<rparr>"
  let ?c = "\<lparr>columns = customers_columns,
            rows = [[Str ''C1'', Str ''Alice'', Stamp 2024 1 10 0],
                    [Str ''C2'', Str ''Carol'', Stamp 2024 2 2 0]]\<rparr>"
  let ?d = "\<lparr>columns = drivers_columns, rows = [[Str ''D1'', Str ''Bob'', Str ''Sedan'']]\<rparr>"
  let ?t = "\<lparr>columns = trips_columns,
            rows = [[Str ''T1'', Str ''C1'', Str ''D1'', Str ''A'', Str ''B'', Num 100]]\<rparr>"
  have fr: "silver_frames demo_env ?bc ?bd ?bt ?bp = Some (?c, ?d, ?t, ?bp)"
    by code_simp
  from silver_dedup_first_per_key [OF fr] obtain c1 where
      a: "first_per_key (cell_of (columns ?bc) ''customer_id'') (rows ?bc) c1"
    and b: "rows ?c = map (coerce_row (columns ?bc) ''signup_date'' (to_datetime_coerce demo_env)) c1"
    and n: "length (rows ?c) = card (cell_of (columns ?bc) ''customer_id'' ` set (rows ?bc))"
    by blast
  from a b have ex: "\<exists>c1. first_per_key (cell_of customers_columns ''customer_id'')
              [[Str ''C1'', Str ''Alice'', Day 2024 1 10], [Str ''C2'', Str ''Carol'', Day 2024 2 2],
               [Str ''C1'', Str ''Alicia'', Day 2024 3 3]] c1
          \<and> [[Str ''C1'', Str ''Alice'', Stamp 2024 1 10 0],
              [Str ''C2'', Str ''Carol'', Stamp 2024 2 2 0]]
             = map (coerce_row customers_columns ''signup_date'' (to_datetime_coerce demo_env)) c1"
    unfolding dataframe.simps by (intro exI [of _ c1] conjI)
  from n have k: "card (cell_of customers_columns ''customer_id'' `
         set [[Str ''C1'', Str ''Alice'', Day 2024 1 10], [Str ''C2'', Str ''Carol'', Day 2024 2 2],
              [Str ''C1'', Str ''Alicia'', Day 2024 3 3]]) = 2"
    unfolding dataframe.simps by simp
  show ?thesis by (intro conjI fr ex k)
qed

section \<open>Type coercion\<close>

lemma drop_duplicates_eq:
  "c \<in> set (columns df) \<Longrightarrow>
   drop_duplicates df c = Some (df\<lparr>rows := keep_first (cell_of (columns df) c) [] (rows df)\<rparr>)"
  using index_of_None [of c "columns df"]
  by (auto simp: drop_duplicates_def cell_of_index)

lemma map_column_eq:
  "c \<in> set (columns df) \<Longrightarrow>
   map_column f df c = Some (df\<lparr>rows := map (coerce_row (columns df) c f) (rows df)\<rparr>)"
  using index_of_None [of c "columns df"]
  by (auto simp: map_column_def coerce_row_index)

lemma get_column_eq:
  "c \<in> set (columns df) \<Longrightarrow> get_column df c = Some (map (cell_of (columns df) c) (rows df))"
  using index_of_None [of c "columns df"]
  by (auto simp: get_column_def cell_of_index)

lemma silver_frames_total:
  assumes "silver_columns_present bc bd bt bp"
  shows "\<exists>c d t p. silver_frames e bc bd bt bp = Some (c, d, t, p)"
  using assms unfolding silver_columns_present_def silver_frames_def
  by (simp add: drop_duplicates_eq map_column_eq get_column_eq select_rows_columns Let_def)

lemma coerced_from_coerce_row:
  assumes "c \<in> set cols" and "f Null = Null" and "\<And>v. fails v \<Longrightarrow> f v = Null"
  shows "coerced_from cols c f fails r0 (coerce_row cols c f r0)"
proof -
  have "length (coerce_row cols c f r0) = length r0"
    by (simp add: coerce_row_def split: option.splits)
  moreover have typed: "cell_of cols c (coerce_row cols c f r0) = f (cell_of cols c r0)"
    using assms(2,1) by (rule cell_of_coerce_row_same)
  moreover have "fails (cell_of cols c r0) \<longrightarrow> cell_of cols c (coerce_row cols c f r0) = Null"
    unfolding typed using assms(3) by simp
  moreover have "\<forall>a \<in> set cols. a \<noteq> c \<longrightarrow>
      cell_of cols a (coerce_row cols c f r0) = cell_of cols a r0"
    by (simp add: cell_of_coerce_row_other)
  ultimately show ?thesis unfolding coerced_from_def by blast
qed

lemma numeric_coerced:
  "c \<in> set cols \<Longrightarrow>
   coerced_from cols c (to_numeric_coerce e) (\<lambda>v. to_numeric_val e v = None) r0
     (coerce_row cols c (to_numeric_coerce e) r0)"
  by (rule coerced_from_coerce_row) (simp_all add: to_numeric_coerce_def)

lemma datetime_coerced:
  "c \<in> set cols \<Longrightarrow>
   coerced_from cols c (to_datetime_coerce e) (\<lambda>v. to_datetime_val e v = None) r0
     (coerce_row cols c (to_datetime_coerce e) r0)"
  by (rule coerced_from_coerce_row) (simp_all add: to_datetime_coerce_def)

text \<open>
  C9. When the Bronze tables have the columns that the Silver build reads, the build of
  the Silver frames returns, it does not raise, whatever the cells hold. Every Silver
  customer, trip and payment is a Bronze row of its table in which only the typed cell
  (\<open>signup_date\<close>, \<open>trip_fare\<close>) has changed: it is the coerced value, null when the value
  fails to parse. And the coercion drops no row: the first Bronze customer of every
  customer id is in Silver, so is the first Bronze trip of every trip id whose customer
  and driver are in Silver, and the first Bronze payment of every payment id whose trip
  is in Silver, each with its typed cell coerced, null when it fails to parse.
\<close>

theorem silver_coercion_failures_become_null:
  assumes "silver_columns_present bc bd bt bp"
  shows "\<exists>c d t p. silver_frames e bc bd bt bp = Some (c, d, t, p)
         \<and> (\<forall>r \<in> set (rows c). \<exists>r0 \<in> set (rows bc).
               coerced_from (columns bc) ''signup_date'' (to_datetime_coerce e)
                 (\<lambda>v. to_datetime_val e v = None) r0 r)
         \<and> (\<forall>r \<in> set (rows t). \<exists>r0 \<in> set (rows bt).
               coerced_from (columns bt) ''trip_fare'' (to_numeric_coerce e)
                 (\<lambda>v. to_numeric_val e v = None) r0 r)
         \<and> (\<forall>r \<in> set (rows p). \<exists>r0 \<in> set (rows bp).
               coerced_from (columns bp) ''trip_fare'' (to_numeric_coerce e)
                 (\<lambda>v. to_numeric_val e v = None) r0 r)
         \<and> (\<forall>r0 \<in> set (rows bc).
               find (\<lambda>x. cell_of (columns bc) ''customer_id'' x
                          = cell_of (columns bc) ''customer_id'' r0) (rows bc) = Some r0
               \<longrightarrow> (\<exists>r \<in> set (rows c).
                      coerced_from (columns bc) ''signup_date'' (to_datetime_coerce e)
                        (\<lambda>v. to_datetime_val e v = None) r0 r))
         \<and> (\<forall>r0 \<in> set (rows bt).
               find (\<lambda>x. cell_of (columns bt) ''trip_id'' x
                          = cell_of (columns bt) ''trip_id'' r0) (rows bt) = Some r0
               \<and> cell_of (columns bt) ''customer_id'' r0
                   \<in> set (map (cell_of (columns bc) ''customer_id'') (rows c))
               \<and> cell_of (columns bt) ''driver_id'' r0
                   \<in> set (map (cell_of (columns bd) ''driver_id'') (rows d))
               \<longrightarrow> (\<exists>r \<in> set (rows t).
                      coerced_from (columns bt) ''trip_fare'' (to_numeric_coerce e)
                        (\<lambda>v. to_numeric_val e v = None) r0 r))
         \<and> (\<forall>r0 \<in> set (rows bp).
               find (\<lambda>x. cell_of (columns bp) ''payment_id'' x
                          = cell_of (columns bp) ''payment_id'' r0) (rows bp) = Some r0
               \<and> cell_of (columns bp) ''trip_id'' r0
                   \<in> set (map (cell_of (columns bt) ''trip_id'') (rows t))
               \<longrightarrow> (\<exists>r \<in> set (rows p).
                      coerced_from (columns bp) ''trip_fare'' (to_numeric_coerce e)
                        (\<lambda>v. to_numeric_val e v = None) r0 r))"
proof -
  from silver_frames_total [OF assms] obtain c d t p where
    fr: "silver_frames e bc bd bt bp = Some (c, d, t, p)"
    by blast
  let ?cid = "cell_of (columns bc) ''customer_id''"
  let ?tid = "cell_of (columns bt) ''trip_id''"
  let ?pid = "cell_of (columns bp) ''payment_id''"
  let ?cc = "coerce_row (columns bc) ''signup_date'' (to_datetime_coerce e)"
  let ?ct = "coerce_row (columns bt) ''trip_fare'' (to_numeric_coerce e)"
  let ?cp = "coerce_row (columns bp) ''trip_fare'' (to_numeric_coerce e)"
  let ?Rc = "coerced_from (columns bc) ''signup_date'' (to_datetime_coerce e)
               (\<lambda>v. to_datetime_val e v = None)"
  let ?Rt = "coerced_from (columns bt) ''trip_fare'' (to_numeric_coerce e)
               (\<lambda>v. to_numeric_val e v = None)"
  let ?Rp = "coerced_from (columns bp) ''trip_fare'' (to_numeric_coerce e)
               (\<lambda>v. to_numeric_val e v = None)"
  note req = silver_frames_required [OF fr]
  have Rc: "?Rc r0 (?cc r0)" for r0 by (rule datetime_coerced [OF req(3)])
  have Rt: "?Rt r0 (?ct r0)" for r0 by (rule numeric_coerced [OF req(1)])
  have Rp: "?Rp r0 (?cp r0)" for r0 by (rule numeric_coerced [OF req(2)])
  have c_from: "\<exists>r0 \<in> set (rows bc). ?Rc r0 r" if "r \<in> set (rows c)" for r
  proof -
    from that obtain r0 where "r0 \<in> set (keep_first ?cid [] (rows bc))" and "r = ?cc r0"
      unfolding silver_customers_rows [OF fr] by auto
    with keep_first_subset [of ?cid "[]" "rows bc"] Rc [of r0] show ?thesis by blast
  qed
  have t_from: "\<exists>r0 \<in> set (rows bt). ?Rt r0 r" if "r \<in> set (rows t)" for r
  proof -
    from that have "r \<in> set (map ?ct (keep_first ?tid [] (rows bt)))"
      unfolding silver_trips_rows [OF fr] by simp
    then obtain r0 where "r0 \<in> set (keep_first ?tid [] (rows bt))" and "r = ?ct r0"
      by auto
    with keep_first_subset [of ?tid "[]" "rows bt"] Rt [of r0] show ?thesis by blast
  qed
  have p_from: "\<exists>r0 \<in> set (rows bp). ?Rp r0 r" if "r \<in> set (rows p)" for r
  proof -
    from that have "r \<in> set (map ?cp (keep_first ?pid [] (rows bp)))"
      unfolding silver_payments_rows [OF fr] by simp
    then obtain r0 where "r0 \<in> set (keep_first ?pid [] (rows bp))" and "r = ?cp r0"
      by auto
    with keep_first_subset [of ?pid "[]" "rows bp"] Rp [of r0] show ?thesis by blast
  qed
  have c_kept: "\<exists>r \<in> set (rows c). ?Rc r0 r"
    if "find (\<lambda>x. ?cid x = ?cid r0) (rows bc) = Some r0" for r0
  proof -
    from keep_first_mem [OF that] have "r0 \<in> set (keep_first ?cid [] (rows bc))" by simp
    then have "?cc r0 \<in> set (rows c)"
      unfolding silver_customers_rows [OF fr] by simp
    with Rc [of r0] show ?thesis by blast
  qed
  have t_kept: "\<exists>r \<in> set (rows t). ?Rt r0 r"
    if first: "find (\<lambda>x. ?tid x = ?tid r0) (rows bt) = Some r0"
      and cust: "cell_of (columns bt) ''customer_id'' r0
                   \<in> set (map (cell_of (columns bc) ''customer_id'') (rows c))"
      and drv: "cell_of (columns bt) ''driver_id'' r0
                   \<in> set (map (cell_of (columns bd) ''driver_id'') (rows d))" for r0
  proof -
    from keep_first_mem [OF first] have "r0 \<in> set (keep_first ?tid [] (rows bt))" by simp
    then have "?ct r0 \<in> set (map ?ct (keep_first ?tid [] (rows bt)))" by simp
    moreover have "cell_of (columns bt) ''customer_id'' (?ct r0) = cell_of (columns bt) ''customer_id'' r0"
      by (rule cell_of_coerce_row_other) simp
    moreover have "cell_of (columns bt) ''driver_id'' (?ct r0) = cell_of (columns bt) ''driver_id'' r0"
      by (rule cell_of_coerce_row_other) simp
    ultimately have "?ct r0 \<in> set (rows t)"
      unfolding silver_trips_rows [OF fr] using cust drv by simp
    with Rt [of r0] show ?thesis by blast
  qed
  have p_kept: "\<exists>r \<in> set (rows p). ?Rp r0 r"
    if first: "find (\<lambda>x. ?pid x = ?pid r0) (rows bp) = Some r0"
      and trip: "cell_of (columns bp) ''trip_id'' r0
                   \<in> set (map (cell_of (columns bt) ''trip_id'') (rows t))" for r0
  proof -
    from keep_first_mem [OF first] have "r0 \<in> set (keep_first ?pid [] (rows bp))" by simp
    then have "?cp r0 \<in> set (map ?cp (keep_first ?pid [] (rows bp)))" by simp
    moreover have "cell_of (columns bp) ''trip_id'' (?cp r0) = cell_of (columns bp) ''trip_id'' r0"
      by (rule cell_of_coerce_row_other) simp
    ultimately have "?cp r0 \<in> set (rows p)"
      unfolding silver_payments_rows [OF fr] using trip by simp
    with Rp [of r0] show ?thesis by blast
  qed
  show ?thesis
    by (rule exI [of _ c], rule exI [of _ d], rule exI [of _ t], rule exI [of _ p])
       (intro conjI ballI impI fr c_from t_from p_from c_kept t_kept p_kept;
        (elim conjE)?; assumption)
qed

theorem silver_coercion_failures_become_null_witness:
  "silver_columns_present
     \<lparr>columns = customers_columns, rows = [[Str ''C1'', Str ''Alice'', Str ''soon'']]\<rparr>
     \<lparr>columns = drivers_columns, rows = [[Str ''D1'', Str ''Bob'', Str ''Sedan'']]\<rparr>
     \<lparr>columns = trips_columns,
      rows = [[Str ''T1'', Str ''C1'', Str ''D1'', Str ''A'', Str ''B'', Str ''abc'']]\<rparr>
     \<lparr>columns = payments_columns, rows = [[Str ''P1'', Str ''T1'', Str ''n/a'', Str ''Card'']]\<rparr>
   \<and> silver_frames demo_env
     \<lparr>columns = customers_columns, rows = [[Str ''C1'', Str ''Alice'', Str ''soon'']]\<rparr>
     \<lparr>columns = drivers_columns, rows = [[Str ''D1'', Str ''Bob'', Str ''Sedan'']]\<rparr>
     \<lparr>columns = trips_columns,
      rows = [[Str ''T1'', Str ''C1'', Str ''D1'', Str ''A'', Str ''B'', Str ''abc'']]\<rparr>
     \<lparr>columns = payments_columns, rows = [[Str ''P1'', Str ''T1'', Str ''n/a'', Str ''Card'']]\<rparr>
   = Some (\<lparr>columns = customers_columns, rows = [[Str ''C1'', Str ''Alice'', Null]]\<rparr>,
           \<lparr>columns = drivers_columns, rows = [[Str ''D1'', Str ''Bob'', Str ''Sedan'']]\<rparr>,
           \<lparr>columns = trips_columns,
            rows = [[Str ''T1'', Str ''C1'', Str ''D1'', Str ''A'', Str ''B'', Null]]\<rparr>,
           \<lparr>columns = payments_columns, rows = [[Str ''P1'', Str ''T1'', Null, Str ''Card'']]\<rparr>)
   \<and> (\<exists>r0 \<in> set [[Str ''T1'', Str ''C1'', Str ''D1'', Str ''A'', Str ''B'', Str ''abc'']].
         coerced_from trips_columns ''trip_fare'' (to_numeric_coerce demo_env)
           (\<lambda>v. to_numeric_val demo_env v = None) r0
           [Str ''T1'', Str ''C1'', Str ''D1'', Str ''A'', Str ''B'', Null])"
proof -
  let ?bc = "\<lparr>columns = customers_columns, rows = [[Str ''C1'', Str ''Alice'', Str ''soon'']]\<rparr>"
  let ?bd = "\<lparr>columns = drivers_columns, rows = [[Str ''D1'', Str ''Bob'', Str ''Sedan'']]\<rparr>"
  let ?bt = "\<lparr>columns = trips_columns,
      rows = [[Str ''T1'', Str ''C1'', Str ''D1'', Str ''A'', Str ''B'', Str ''abc'']]\<rparr>"
  let ?bp = "\<lparr>columns = payments_columns, rows = [[Str ''P1'', Str ''T1'', Str ''n/a'', Str ''Card'']]\<rparr>"
  let ?c = "\<lparr>columns = customers_columns, rows = [[Str ''C1'', Str ''Alice'', Null]]\<rparr>"
  let ?t = "\<lparr>columns = trips_columns,
            rows = [[Str ''T1'', Str ''C1'', Str ''D1'', Str ''A'', Str ''B'', Null]]\<rparr>"
  let ?p = "\<lparr>columns = payments_columns, rows = [[Str ''P1'', Str ''T1'', Null, Str ''Card'']]\<rparr>"
  have present: "silver_columns_present ?bc ?bd ?bt ?bp"
    by (simp add: silver_columns_present_def customers_columns_def drivers_columns_def
          trips_columns_def payments_columns_def)
  have fr: "silver_frames demo_env ?bc ?bd ?bt ?bp = Some (?c, ?bd, ?t, ?p)"
    by code_simp
  from silver_coercion_failures_become_null [OF present, of demo_env] obtain c d t p where
      run: "silver_frames demo_env ?bc ?bd ?bt ?bp = Some (c, d, t, p)"
    and trips: "\<forall>r \<in> set (rows t). \<exists>r0 \<in> set (rows ?bt).
               coerced_from (columns ?bt) ''trip_fare'' (to_numeric_coerce demo_env)
                 (\<lambda>v. to_numeric_val demo_env v = None) r0 r"
    by blast
  from run fr have "t = ?t" by simp
  with trips have "\<exists>r0 \<in> set (rows ?bt).
         coerced_from (columns ?bt) ''trip_fare'' (to_numeric_coerce demo_env)
           (\<lambda>v. to_numeric_val demo_env v = None) r0
           [Str ''T1'', Str ''C1'', Str ''D1'', Str ''A'', Str ''B'', Null]"
    by simp
  then have ex: "\<exists>r0 \<in> set [[Str ''T1'', Str ''C1'', Str ''D1'', Str ''A'', Str ''B'', Str ''abc'']].
         coerced_from trips_columns ''trip_fare'' (to_numeric_coerce demo_env)
           (\<lambda>v. to_numeric_val demo_env v = None) r0
           [Str ''T1'', Str ''C1'', Str ''D1'', Str ''A'', Str ''B'', Null]"
    unfolding dataframe.simps .
  show ?thesis by (intro conjI present fr ex)
qed

section \<open>Vehicle types and the foreign keys\<close>

text \<open>
  C10. When the Bronze drivers table has no \<open>vehicle_type\<close> column, the Silver drivers
  are exactly the deduplicated Bronze drivers, and the driver test on a trip is against the
  \<open>driver_id\<close> values of all Bronze drivers: no trip is lost to the vehicle types.
\<close>

theorem no_vehicle_type_column_no_filter:
  assumes "''vehicle_type'' \<notin> set (columns bd)"
    and "silver_frames e bc bd bt bp = Some (c, d, t, p)"
  shows "drop_duplicates bd ''driver_id'' = Some d
       \<and> rows t =
          filter (\<lambda>r. cell_of (columns bt) ''driver_id'' r
                        \<in> cell_of (columns bd) ''driver_id'' ` set (rows bd))
           (filter (\<lambda>r. cell_of (columns bt) ''customer_id'' r
                          \<in> cell_of (columns bc) ''customer_id'' ` set (rows c))
             (map (coerce_row (columns bt) ''trip_fare'' (to_numeric_coerce e))
               (keep_first (cell_of (columns bt) ''trip_id'') [] (rows bt))))"
proof -
  have rd: "rows d = keep_first (cell_of (columns bd) ''driver_id'') [] (rows bd)"
    using silver_drivers_rows [OF assms(2)] assms(1) by simp
  have cd: "columns d = columns bd"
    by (rule silver_frames_columns [OF assms(2)])
  obtain i where i: "index_of ''driver_id'' (columns bd) = Some i"
    using silver_frames_required(5) [OF assms(2)] index_of_None [of "''driver_id''" "columns bd"]
    by auto
  have "drop_duplicates bd ''driver_id'' = Some d"
    using i rd cd by (simp add: drop_duplicates_def cell_of_index)
  moreover have "set (map (cell_of (columns bd) ''driver_id'') (rows d))
      = cell_of (columns bd) ''driver_id'' ` set (rows bd)"
    unfolding rd keep_first_keys by simp
  ultimately show ?thesis using silver_trips_rows [OF assms(2)] by simp
qed

theorem no_vehicle_type_column_no_filter_witness:
  "''vehicle_type'' \<notin> set [''driver_id'', ''driver_name'']
   \<and> silver_frames demo_env
       \<lparr>columns = customers_columns, rows = [[Str ''C1'', Str ''Alice'', Day 2024 1 10]]\<rparr>
       \<lparr>columns = [''driver_id'', ''driver_name''], rows = [[Str ''D1'', Str ''Bob'']]\<rparr>
       \<lparr>columns = trips_columns,
        rows = [[Str ''T1'', Str ''C1'', Str ''D1'', Str ''A'', Str ''B'', Num 100]]\<rparr>
       \<lparr>columns = payments_columns, rows = []\<rparr>
     = Some (\<lparr>columns = customers_columns, rows = [[Str ''C1'', Str ''Alice'', Stamp 2024 1 10 0]]\<rparr>,
             \<lparr>columns = [''driver_id'', ''driver_name''], rows = [[Str ''D1'', Str ''Bob'']]\<rparr>,
             \<lparr>columns = trips_columns,
              rows = [[Str ''T1'', Str ''C1'', Str ''D1'', Str ''A'', Str ''B'', Num 100]]\<rparr>,
             \<lparr>columns = payments_columns, rows = []\<rparr>)
   \<and> drop_duplicates \<lparr>columns = [''driver_id'', ''driver_name''], rows = [[Str ''D1'', Str ''Bob'']]\<rparr>
       ''driver_id''
     = Some \<lparr>columns = [''driver_id'', ''driver_name''], rows = [[Str ''D1'', Str ''Bob'']]\<rparr>"
proof -
  let ?bd = "\<lparr>columns = [''driver_id'', ''driver_name''], rows = [[Str ''D1'', Str ''Bob'']]\<rparr>"
  have h1: "''vehicle_type'' \<notin> set (columns ?bd)" by simp
  have h2: "silver_frames demo_env
       \<lparr>columns = customers_columns, rows = [[Str ''C1'', Str ''Alice'', Day 2024 1 10]]\<rparr>
       ?bd
       \<lparr>columns = trips_columns,
        rows = [[Str ''T1'', Str ''C1'', Str ''D1'', Str ''A'', Str ''B'', Num 100]]\<rparr>
       \<lparr>columns = payments_columns, rows = []\<rparr>
     = Some (\<lparr>columns = customers_columns, rows = [[Str ''C1'', Str ''Alice'', Stamp 2024 1 10 0]]\<rparr>,
             ?bd,
             \<lparr>columns = trips_columns,
              rows = [[Str ''T1'', Str ''C1'', Str ''D1'', Str ''A'', Str ''B'', Num 100]]\<rparr>,
             \<lparr>columns = payments_columns, rows = []\<rparr>)"
    by code_simp
  from no_vehicle_type_column_no_filter [OF h1 h2] h2 show ?thesis by simp
qed

text \<open>
  C4, as stated, fails: a Bronze driver row with the vehicle type \<open>Van\<close> that is a later
  duplicate of a valid row does not remove the trips of its \<open>driver_id\<close>.
\<close>

theorem invalid_driver_cascade_counterexample:
  "silver_frames demo_env
     \<lparr>columns = customers_columns, rows = [[Str ''C1'', Str ''Alice'', Day 2024 1 10]]\<rparr>
     \<lparr>columns = drivers_columns,
      rows = [[Str ''D1'', Str ''Bob'', Str ''Sedan''], [Str ''D1'', Str ''Bob'', Str ''Van'']]\<rparr>
     \<lparr>columns = trips_columns,
      rows = [[Str ''T1'', Str ''C1'', Str ''D1'', Str ''A'', Str ''B'', Num 100]]\<rparr>
     \<lparr>columns = payments_columns, rows = [[Str ''P1'', Str ''T1'', Num 100, Str ''Card'']]\<rparr>
   = Some (\<lparr>columns = customers_columns, rows = [[Str ''C1'', Str ''Alice'', Stamp 2024 1 10 0]]\<rparr>,
           \<lparr>columns = drivers_columns, rows = [[Str ''D1'', Str ''Bob'', Str ''Sedan'']]\<rparr>,
           \<lparr>columns = trips_columns,
            rows = [[Str ''T1'', Str ''C1'', Str ''D1'', Str ''A'', Str ''B'', Num 100]]\<rparr>,
           \<lparr>columns = payments_columns, rows = [[Str ''P1'', Str ''T1'', Num 100, Str ''Card'']]\<rparr>)
   \<and> cell_of drivers_columns ''vehicle_type'' [Str ''D1'', Str ''Bob'', Str ''Van'']
       \<notin> set VALID_VEHICLE_TYPES
   \<and> cell_of trips_columns ''driver_id'' [Str ''T1'', Str ''C1'', Str ''D1'', Str ''A'', Str ''B'', Num 100]
       = cell_of drivers_columns ''driver_id'' [Str ''D1'', Str ''Bob'', Str ''Van'']"
  by code_simp

text \<open>
  C4, amended. When the drivers table has a \<open>vehicle_type\<close> column and the first Bronze
  driver row with a given \<open>driver_id\<close> has a vehicle type outside Sedan, SUV, Hatchback,
  Mini, then Silver has no driver and no trip with that \<open>driver_id\<close>, and every Silver
  payment refers to a Silver trip (so none refers to a trip of that driver).
\<close>

theorem invalid_first_driver_cascade:
  assumes "silver_frames e bc bd bt bp = Some (c, d, t, p)"
    and "''vehicle_type'' \<in> set (columns bd)"
    and "find (\<lambda>r. cell_of (columns bd) ''driver_id'' r = x) (rows bd) = Some r0"
    and "cell_of (columns bd) ''vehicle_type'' r0 \<notin> set VALID_VEHICLE_TYPES"
  shows "(\<forall>r \<in> set (rows d). cell_of (columns bd) ''driver_id'' r \<noteq> x)
       \<and> (\<forall>r \<in> set (rows t). cell_of (columns bt) ''driver_id'' r \<noteq> x)
       \<and> (\<forall>r \<in> set (rows p). cell_of (columns bp) ''trip_id'' r
               \<in> cell_of (columns bt) ''trip_id'' ` set (rows t))"
proof -
  let ?key = "cell_of (columns bd) ''driver_id''"
  have no_driver: "?key r \<noteq> x" if "r \<in> set (rows d)" for r
  proof
    assume kx: "?key r = x"
    from that assms(2) silver_drivers_rows [OF assms(1)]
    have valid: "cell_of (columns bd) ''vehicle_type'' r \<in> set VALID_VEHICLE_TYPES"
      and kept: "r \<in> set (keep_first ?key [] (rows bd))" by simp_all
    from keep_first_find [OF kept] kx assms(3) have "r = r0" by simp
    with valid assms(4) show False by simp
  qed
  moreover have "cell_of (columns bt) ''driver_id'' r \<noteq> x" if "r \<in> set (rows t)" for r
  proof -
    from that have "r \<in> set (filter (\<lambda>r. cell_of (columns bt) ''driver_id'' r \<in> set (map ?key (rows d)))
           (filter (\<lambda>r. cell_of (columns bt) ''customer_id'' r \<in> set (map (cell_of (columns bc) ''customer_id'') (rows c)))
             (map (coerce_row (columns bt) ''trip_fare'' (to_numeric_coerce e))
               (keep_first (cell_of (columns bt) ''trip_id'') [] (rows bt)))))"
      by (simp only: silver_trips_rows [OF assms(1), symmetric])
    then have "cell_of (columns bt) ''driver_id'' r \<in> ?key ` set (rows d)"
      by simp
    then obtain r' where "r' \<in> set (rows d)" and "cell_of (columns bt) ''driver_id'' r = ?key r'"
      by blast
    with no_driver [of r'] show ?thesis by simp
  qed
  moreover have "cell_of (columns bp) ''trip_id'' r \<in> cell_of (columns bt) ''trip_id'' ` set (rows t)"
    if "r \<in> set (rows p)" for r
  proof -
    from that have "r \<in> set (filter (\<lambda>r. cell_of (columns bp) ''trip_id'' r \<in> set (map (cell_of (columns bt) ''trip_id'') (rows t)))
           (map (coerce_row (columns bp) ''trip_fare'' (to_numeric_coerce e))
              (keep_first (cell_of (columns bp) ''payment_id'') [] (rows bp))))"
      by (simp only: silver_payments_rows [OF assms(1), symmetric])
    then show ?thesis by simp
  qed
  ultimately show ?thesis by blast
qed

theorem invalid_first_driver_cascade_witness:
  "silver_frames demo_env
     \<lparr>columns = customers_columns, rows = [[Str ''C1'', Str ''Alice'', Day 2024 1 10]]\<rparr>
     \<lparr>columns = drivers_columns, rows = [[Str ''D1'', Str ''Bob'', Str ''Van'']]\<rparr>
     \<lparr>columns = trips_columns,
      rows = [[Str ''T1'', Str ''C1'', Str ''D1'', Str ''A'', Str ''B'', Num 100]]\<rparr>
     \<lparr>columns = payments_columns, rows = [[Str ''P1'', Str ''T1'', Num 100, Str ''Card'']]\<rparr>
   = Some (\<lparr>columns = customers_columns, rows = [[Str ''C1'', Str ''Alice'', Stamp 2024 1 10 0]]\<rparr>,
           \<lparr>columns = drivers_columns, rows = []\<rparr>,
           \<lparr>columns = trips_columns, rows = []\<rparr>,
           \<lparr>columns = payments_columns, rows = []\<rparr>)
   \<and> ''vehicle_type'' \<in> set drivers_columns
   \<and> find (\<lambda>r. cell_of drivers_columns ''driver_id'' r = Str ''D1'')
         [[Str ''D1'', Str ''Bob'', Str ''Van'']] = Some [Str ''D1'', Str ''Bob'', Str ''Van'']
   \<and> cell_of drivers_columns ''vehicle_type'' [Str ''D1'', Str ''Bob'', Str ''Van'']
       \<notin> set VALID_VEHICLE_TYPES"
proof -
  let ?bd = "\<lparr>columns = drivers_columns, rows = [[Str ''D1'', Str ''Bob'', Str ''Van'']]\<rparr>"
  have h1: "silver_frames demo_env
     \<lparr>columns = customers_columns, rows = [[Str ''C1'', Str ''Alice'', Day 2024 1 10]]\<rparr>
     ?bd
     \<lparr>columns = trips_columns,
      rows = [[Str ''T1'', Str ''C1'', Str ''D1'', Str ''A'', Str ''B'', Num 100]]\<rparr>
     \<lparr>columns = payments_columns, rows = [[Str ''P1'', Str ''T1'', Num 100, Str ''Card'']]\<rparr>
   = Some (\<lparr>columns = customers_columns, rows = [[Str ''C1'', Str ''Alice'', Stamp 2024 1 10 0]]\<rparr>,
           \<lparr>columns = drivers_columns, rows = []\<rparr>,
           \<lparr>columns = trips_columns, rows = []\<rparr>,
           \<lparr>columns = payments_columns, rows = []\<rparr>)"
    by code_simp
  have h2: "''vehicle_type'' \<in> set (columns ?bd)"
    by (simp add: drivers_columns_def)
  have h3: "find (\<lambda>r. cell_of (columns ?bd) ''driver_id'' r = Str ''D1'') (rows ?bd)
      = Some [Str ''D1'', Str ''Bob'', Str ''Van'']"
    by (simp add: drivers_columns_def cell_of_def cell_at_def)
  have h4: "cell_of (columns ?bd) ''vehicle_type'' [Str ''D1'', Str ''Bob'', Str ''Van'']
      \<notin> set VALID_VEHICLE_TYPES"
    by (simp add: drivers_columns_def cell_of_def cell_at_def VALID_VEHICLE_TYPES_def)
  from invalid_first_driver_cascade [OF h1 h2 h3 h4] h1 h2 h3 h4 show ?thesis by simp
qed

section \<open>The Silver build on the store\<close>

lemma append_after_create:
  "to_sql_append t df (create_table_if_not_exists t cols s) =
     (if set (columns df) \<subseteq> set (columns (table_or_new s t cols))
      then Some (s\<lparr>tables := (tables s)(t \<mapsto>
             (table_or_new s t cols)\<lparr>rows := rows (table_or_new s t cols)
                @ map (realign (columns (table_or_new s t cols)) df) (rows df)\<rparr>)\<rparr>)
      else None)"
  by (cases "tables s t")
     (simp_all add: to_sql_append_def create_table_if_not_exists_def table_or_new_def)

lemma log_dq_eq:
  "log_dq e tb m i s =
     (if dq_ready s
      then Some (s\<lparr>ticks := Suc (ticks s),
                  files := (files s)(''log/silver/'' @ tb @ ''_dq.csv'' \<mapsto>
                    \<lparr>columns = dq_columns,
                     rows = [[Str tb, Num (of_nat m), Num (of_nat i), clock e (ticks s)]]\<rparr>),
                  tables := (tables s)(''audit.rejected_rows'' \<mapsto>
                    (table_or_new s ''audit.rejected_rows'' dq_columns)
                      \<lparr>rows := rows (table_or_new s ''audit.rejected_rows'' dq_columns)
                         @ [realign (columns (table_or_new s ''audit.rejected_rows'' dq_columns))
                              \<lparr>columns = dq_columns,
                               rows = [[Str tb, Num (of_nat m), Num (of_nat i), clock e (ticks s)]]\<rparr>
                              [Str tb, Num (of_nat m), Num (of_nat i), clock e (ticks s)]]\<rparr>)\<rparr>)
      else None)"
  by (simp add: log_dq_def now_def Let_def append_after_create dq_ready_def table_or_new_def)



lemma log_dq_appends:
  assumes "log_dq e tb m i s = Some s'" and "tables s ''audit.rejected_rows'' = Some old"
  shows "\<exists>new. tables s' ''audit.rejected_rows'' = Some new \<and> columns new = columns old
           \<and> (\<exists>ys. rows new = rows old @ ys)"
  using assms unfolding log_dq_eq
  by (auto simp: table_or_new_def split: if_splits)

lemma log_rows_and_checksum_simps:
  "tables (log_rows_and_checksum e df layer table s) = tables s"
  "ticks (log_rows_and_checksum e df layer table s) = ticks s"
  "console (log_rows_and_checksum e df layer table s)
     = console s @ [(layer, table, length (rows df), md5 e df)]"
  "files (log_rows_and_checksum e df layer table s)
     = (files s)(''log/'' @ layer @ ''/'' @ table @ ''.csv'' \<mapsto> df)"
  by (simp_all add: log_rows_and_checksum_def)

lemma to_sql_replace_simps:
  "tables (to_sql_replace t df s) = (tables s)(t \<mapsto> df)"
  "files (to_sql_replace t df s) = files s"
  "console (to_sql_replace t df s) = console s"
  "ticks (to_sql_replace t df s) = ticks s"
  by (simp_all add: to_sql_replace_def)







section \<open>The Gold queries\<close>

lemma sql_col_Some:
  "sql_col df c = Some f \<Longrightarrow> c \<in> set (columns df) \<and> f = cell_of (columns df) c"
  by (auto simp: sql_col_def cell_of_index index_of_mem)

lemma sql_true_iff: "sql_eq a b = Flag True \<longleftrightarrow> a \<noteq> Null \<and> a = b"
  by (auto simp: sql_eq_def)

lemma fact_trips_dashboard_Some:
  assumes "fact_trips_dashboard t c d p = Some f"
  shows "columns f = fact_columns"
    and "rows f =
      map (\<lambda>(((tr, cr), dr), pr).
             [cell_of (columns t) ''trip_id'' tr,
              cell_of (columns t) ''customer_id'' tr,
              null_ext (cell_of (columns c) ''customer_name'') cr,
              null_ext (cell_of (columns c) ''signup_date'') cr,
              date_trunc_month (null_ext (cell_of (columns c) ''signup_date'') cr),
              cell_of (columns t) ''driver_id'' tr,
              null_ext (cell_of (columns d) ''driver_name'') dr,
              null_ext (cell_of (columns d) ''vehicle_type'') dr,
              cell_of (columns t) ''pickup_location'' tr,
              cell_of (columns t) ''drop_location'' tr,
              cell_of (columns t) ''trip_fare'' tr,
              null_ext (cell_of (columns p) ''trip_fare'') pr,
              coalesce (null_ext (cell_of (columns p) ''mode_of_payment'') pr) (Str ''Unknown''),
              sql_eq (null_ext (cell_of (columns p) ''trip_fare'') pr)
                (cell_of (columns t) ''trip_fare'' tr)])
        (left_join (\<lambda>((tr, cr), dr) pr.
              sql_eq (cell_of (columns p) ''trip_id'' pr) (cell_of (columns t) ''trip_id'' tr) = Flag True)
           (left_join (\<lambda>(tr, cr) dr.
                sql_eq (cell_of (columns d) ''driver_id'' dr) (cell_of (columns t) ''driver_id'' tr) = Flag True)
              (left_join (\<lambda>tr cr.
                   sql_eq (cell_of (columns c) ''customer_id'' cr) (cell_of (columns t) ''customer_id'' tr) = Flag True)
                 (rows t) (rows c))
              (rows d))
           (rows p))"
  using assms unfolding fact_trips_dashboard_def Let_def bind_eq_Some_conv
  by (auto dest!: sql_col_Some)


lemma build_gold_Some:
  assumes "build_gold s = Some s'"
  shows "\<exists>t d c p dp rp fact.
      tables s ''silver.trips'' = Some t \<and> tables s ''silver.drivers'' = Some d
    \<and> tables s ''silver.customers'' = Some c \<and> tables s ''silver.payments'' = Some p
    \<and> driver_performance t d = Some dp \<and> route_performance t = Some rp
    \<and> fact_trips_dashboard t c d p = Some fact
    \<and> s' = s\<lparr>tables := (tables s)(''gold.driver_performance'' \<mapsto> dp,
                                    ''gold.route_performance'' \<mapsto> rp,
                                    ''gold.fact_trips_dashboard'' \<mapsto> fact)\<rparr>"
  using assms unfolding build_gold_def Let_def bind_eq_Some_conv read_sql_def to_sql_replace_def
  by auto

lemma left_join_mem:
  assumes "(x, yo) \<in> set (left_join on xs ys)"
  shows "x \<in> set xs"
    and "yo = None \<Longrightarrow> \<forall>y \<in> set ys. \<not> on x y"
    and "yo = Some y \<Longrightarrow> y \<in> set ys \<and> on x y"
proof -
  from assms obtain x' where x': "x' \<in> set xs"
    and mem: "(x, yo) \<in> set (case filter (on x') ys of [] \<Rightarrow> [(x', None)]
                                | m # ms \<Rightarrow> map (\<lambda>y. (x', Some y)) (m # ms))"
    unfolding left_join_def by auto
  have xx: "x = x'" using mem by (auto split: list.splits)
  show "x \<in> set xs" using x' xx by simp
  show "\<forall>y \<in> set ys. \<not> on x y" if "yo = None"
  proof (cases "filter (on x') ys")
    case Nil
    then show ?thesis unfolding xx by (simp add: filter_empty_conv)
  next
    case (Cons m ms)
    with mem that show ?thesis by auto
  qed
  show "y \<in> set ys \<and> on x y" if "yo = Some y"
  proof (cases "filter (on x') ys")
    case Nil
    with mem that show ?thesis by simp
  next
    case (Cons m ms)
    with mem that have "y \<in> set (filter (on x') ys)" by auto
    then show ?thesis unfolding xx by simp
  qed
qed

lemma fact_row_cells:
  "cell_of fact_columns ''trip_id'' [a1, a2, a3, a4, a5, a6, a7, a8, a9, a10, a11, a12, a13, a14] = a1"
  "cell_of fact_columns ''trip_fare'' [a1, a2, a3, a4, a5, a6, a7, a8, a9, a10, a11, a12, a13, a14] = a11"
  "cell_of fact_columns ''paid_fare'' [a1, a2, a3, a4, a5, a6, a7, a8, a9, a10, a11, a12, a13, a14] = a12"
  "cell_of fact_columns ''mode_of_payment'' [a1, a2, a3, a4, a5, a6, a7, a8, a9, a10, a11, a12, a13, a14] = a13"
  "cell_of fact_columns ''fare_matches'' [a1, a2, a3, a4, a5, a6, a7, a8, a9, a10, a11, a12, a13, a14] = a14"
  by (simp_all add: cell_of_def fact_columns_def cell_at_def)

lemma build_gold_eq:
  assumes "tables s ''silver.trips'' = Some t" and "tables s ''silver.drivers'' = Some d"
    and "tables s ''silver.customers'' = Some c" and "tables s ''silver.payments'' = Some p"
    and "driver_performance t d = Some dp" and "route_performance t = Some rp"
    and "fact_trips_dashboard t c d p = Some ft"
  shows "build_gold s = Some (s\<lparr>tables := (tables s)(''gold.driver_performance'' \<mapsto> dp,
                                    ''gold.route_performance'' \<mapsto> rp,
                                    ''gold.fact_trips_dashboard'' \<mapsto> ft)\<rparr>)"
  unfolding build_gold_def read_sql_def to_sql_replace_def
  by (simp add: assms)

section \<open>The fare flag of the fact table\<close>

text \<open>
  C1, as stated, fails: for a trip without payment the flag is null, not false.
\<close>

theorem fare_matches_counterexample:
  "fact_trips_dashboard
     \<lparr>columns = trips_columns,
      rows = [[Str ''T1'', Str ''C1'', Str ''D1'', Str ''A'', Str ''B'', Num 100]]\<rparr>
     \<lparr>columns = customers_columns, rows = [[Str ''C1'', Str ''Alice'', Stamp 2024 1 10 0]]\<rparr>
     \<lparr>columns = drivers_columns, rows = [[Str ''D1'', Str ''Bob'', Str ''Sedan'']]\<rparr>
     \<lparr>columns = payments_columns, rows = []\<rparr>
   = Some \<lparr>columns = fact_columns,
           rows = [[Str ''T1'', Str ''C1'', Str ''Alice'', Stamp 2024 1 10 0, Day 2024 1 1,
                    Str ''D1'', Str ''Bob'', Str ''Sedan'', Str ''A'', Str ''B'',
                    Num 100, Null, Str ''Unknown'', Null]]\<rparr>
   \<and> cell_of fact_columns ''fare_matches''
        [Str ''T1'', Str ''C1'', Str ''Alice'', Stamp 2024 1 10 0, Day 2024 1 1,
         Str ''D1'', Str ''Bob'', Str ''Sedan'', Str ''A'', Str ''B'',
         Num 100, Null, Str ''Unknown'', Null] \<noteq> Flag False"
  by code_simp

text \<open>
  C1, amended. In every row of the Gold fact table the flag is the three-valued comparison
  of the paid fare with the trip fare: true iff the paid fare is not null and equals the
  trip fare, null iff one of the two fares is null (false otherwise). The paid fare is
  null or the fare of a Silver payment with the row's trip id; when no Silver payment has
  that trip id, the paid fare is null, the mode of payment is Unknown and the flag is null.
\<close>

theorem fare_matches_three_valued:
  assumes "build_gold s = Some s'"
    and "tables s ''silver.payments'' = Some p"
    and "tables s' ''gold.fact_trips_dashboard'' = Some f"
    and "r \<in> set (rows f)"
  shows "cell_of fact_columns ''fare_matches'' r
           = sql_eq (cell_of fact_columns ''paid_fare'' r) (cell_of fact_columns ''trip_fare'' r)
       \<and> (cell_of fact_columns ''fare_matches'' r = Flag True \<longleftrightarrow>
            cell_of fact_columns ''paid_fare'' r \<noteq> Null
            \<and> cell_of fact_columns ''paid_fare'' r = cell_of fact_columns ''trip_fare'' r)
       \<and> (cell_of fact_columns ''fare_matches'' r = Null \<longleftrightarrow>
            cell_of fact_columns ''paid_fare'' r = Null
            \<or> cell_of fact_columns ''trip_fare'' r = Null)
       \<and> (cell_of fact_columns ''paid_fare'' r = Null
            \<or> (\<exists>pa \<in> set (rows p).
                  cell_of (columns p) ''trip_id'' pa = cell_of fact_columns ''trip_id'' r
                  \<and> cell_of (columns p) ''trip_fare'' pa = cell_of fact_columns ''paid_fare'' r))
       \<and> ((\<forall>pa \<in> set (rows p).
              cell_of (columns p) ''trip_id'' pa \<noteq> cell_of fact_columns ''trip_id'' r) \<longrightarrow>
            cell_of fact_columns ''paid_fare'' r = Null
            \<and> cell_of fact_columns ''mode_of_payment'' r = Str ''Unknown''
            \<and> cell_of fact_columns ''fare_matches'' r = Null)"
proof -
  from build_gold_Some [OF assms(1)] assms(2,3) obtain t c d where
    fact: "fact_trips_dashboard t c d p = Some f"
    by auto
  let ?on = "\<lambda>((tr, cr), dr) pr.
              sql_eq (cell_of (columns p) ''trip_id'' pr) (cell_of (columns t) ''trip_id'' tr) = Flag True"
  from assms(4) obtain tr cr dr pr where
      j: "(((tr, cr), dr), pr) \<in> set (left_join ?on
           (left_join (\<lambda>(tr, cr) dr.
                sql_eq (cell_of (columns d) ''driver_id'' dr) (cell_of (columns t) ''driver_id'' tr) = Flag True)
              (left_join (\<lambda>tr cr.
                   sql_eq (cell_of (columns c) ''customer_id'' cr) (cell_of (columns t) ''customer_id'' tr) = Flag True)
                 (rows t) (rows c))
              (rows d))
           (rows p))"
    and r: "r = [cell_of (columns t) ''trip_id'' tr,
              cell_of (columns t) ''customer_id'' tr,
              null_ext (cell_of (columns c) ''customer_name'') cr,
              null_ext (cell_of (columns c) ''signup_date'') cr,
              date_trunc_month (null_ext (cell_of (columns c) ''signup_date'') cr),
              cell_of (columns t) ''driver_id'' tr,
              null_ext (cell_of (columns d) ''driver_name'') dr,
              null_ext (cell_of (columns d) ''vehicle_type'') dr,
              cell_of (columns t) ''pickup_location'' tr,
              cell_of (columns t) ''drop_location'' tr,
              cell_of (columns t) ''trip_fare'' tr,
              null_ext (cell_of (columns p) ''trip_fare'') pr,
              coalesce (null_ext (cell_of (columns p) ''mode_of_payment'') pr) (Str ''Unknown''),
              sql_eq (null_ext (cell_of (columns p) ''trip_fare'') pr)
                (cell_of (columns t) ''trip_fare'' tr)]"
    unfolding fact_trips_dashboard_Some(2) [OF fact] by auto
  have cells: "cell_of fact_columns ''trip_id'' r = cell_of (columns t) ''trip_id'' tr"
    "cell_of fact_columns ''trip_fare'' r = cell_of (columns t) ''trip_fare'' tr"
    "cell_of fact_columns ''paid_fare'' r = null_ext (cell_of (columns p) ''trip_fare'') pr"
    "cell_of fact_columns ''mode_of_payment'' r
       = coalesce (null_ext (cell_of (columns p) ''mode_of_payment'') pr) (Str ''Unknown'')"
    "cell_of fact_columns ''fare_matches'' r
       = sql_eq (null_ext (cell_of (columns p) ''trip_fare'') pr) (cell_of (columns t) ''trip_fare'' tr)"
    unfolding r by (simp_all only: fact_row_cells)
  have paid: "cell_of fact_columns ''paid_fare'' r = Null
            \<or> (\<exists>pa \<in> set (rows p).
                  cell_of (columns p) ''trip_id'' pa = cell_of fact_columns ''trip_id'' r
                  \<and> cell_of (columns p) ''trip_fare'' pa = cell_of fact_columns ''paid_fare'' r)"
  proof (cases pr)
    case None
    then show ?thesis unfolding cells by (simp add: null_ext_def)
  next
    case (Some pa)
    from left_join_mem(3) [OF j Some]
    have "pa \<in> set (rows p)"
      and "cell_of (columns p) ''trip_id'' pa = cell_of (columns t) ''trip_id'' tr"
      by (simp_all add: sql_true_iff)
    with Some show ?thesis unfolding cells by (auto simp: null_ext_def)
  qed
  have nopay: "cell_of fact_columns ''paid_fare'' r = Null
            \<and> cell_of fact_columns ''mode_of_payment'' r = Str ''Unknown''
            \<and> cell_of fact_columns ''fare_matches'' r = Null"
    if "\<forall>pa \<in> set (rows p).
              cell_of (columns p) ''trip_id'' pa \<noteq> cell_of fact_columns ''trip_id'' r"
  proof (cases pr)
    case None
    then show ?thesis unfolding cells by (simp add: null_ext_def coalesce_def sql_eq_def)
  next
    case (Some pa)
    from left_join_mem(3) [OF j Some]
    have "pa \<in> set (rows p)"
      and "cell_of (columns p) ''trip_id'' pa = cell_of (columns t) ''trip_id'' tr"
      by (simp_all add: sql_true_iff)
    with that show ?thesis unfolding cells by auto
  qed
  show ?thesis
    using paid nopay unfolding cells(5) cells(2) [symmetric] cells(3) [symmetric]
    by (auto simp: sql_eq_def)
qed

theorem fare_matches_three_valued_witness:
  "\<exists>s' f.
      build_gold (silver_store [[Str ''C1'', Str ''Alice'', Stamp 2024 1 10 0]]
                    [[Str ''D1'', Str ''Bob'', Str ''Sedan'']]
                    [[Str ''T1'', Str ''C1'', Str ''D1'', Str ''A'', Str ''B'', Num 100]]
                    [[Str ''P1'', Str ''T1'', Num 100, Str ''Card'']]) = Some s'
    \<and> tables s' ''gold.fact_trips_dashboard'' = Some f
    \<and> [Str ''T1'', Str ''C1'', Str ''Alice'', Stamp 2024 1 10 0, Day 2024 1 1,
         Str ''D1'', Str ''Bob'', Str ''Sedan'', Str ''A'', Str ''B'',
         Num 100, Num 100, Str ''Card'', Flag True] \<in> set (rows f)
    \<and> cell_of fact_columns ''fare_matches''
         [Str ''T1'', Str ''C1'', Str ''Alice'', Stamp 2024 1 10 0, Day 2024 1 1,
          Str ''D1'', Str ''Bob'', Str ''Sedan'', Str ''A'', Str ''B'',
          Num 100, Num 100, Str ''Card'', Flag True]
        = sql_eq (Num 100) (Num 100)"
proof -
  let ?c = "\<lparr>columns = customers_columns, rows = [[Str ''C1'', Str ''Alice'', Stamp 2024 1 10 0]]\<rparr>"
  let ?d = "\<lparr>columns = drivers_columns, rows = [[Str ''D1'', Str ''Bob'', Str ''Sedan'']]\<rparr>"
  let ?t = "\<lparr>columns = trips_columns,
             rows = [[Str ''T1'', Str ''C1'', Str ''D1'', Str ''A'', Str ''B'', Num 100]]\<rparr>"
  let ?p = "\<lparr>columns = payments_columns, rows = [[Str ''P1'', Str ''T1'', Num 100, Str ''Card'']]\<rparr>"
  let ?s = "silver_store [[Str ''C1'', Str ''Alice'', Stamp 2024 1 10 0]]
                    [[Str ''D1'', Str ''Bob'', Str ''Sedan'']]
                    [[Str ''T1'', Str ''C1'', Str ''D1'', Str ''A'', Str ''B'', Num 100]]
                    [[Str ''P1'', Str ''T1'', Num 100, Str ''Card'']]"
  let ?r = "[Str ''T1'', Str ''C1'', Str ''Alice'', Stamp 2024 1 10 0, Day 2024 1 1,
             Str ''D1'', Str ''Bob'', Str ''Sedan'', Str ''A'', Str ''B'',
             Num 100, Num 100, Str ''Card'', Flag True]"
  let ?f = "\<lparr>columns = fact_columns, rows = [?r]\<rparr>"
  let ?dp = "\<lparr>columns = driver_performance_columns,
              rows = [[Str ''D1'', Str ''Bob'', Str ''Sedan'', Num 1, Num 100, Num 100]]\<rparr>"
  let ?rp = "\<lparr>columns = route_performance_columns,
              rows = [[Str ''A'', Str ''B'', Num 1, Num 100, Num 100]]\<rparr>"
  have tabs: "tables ?s ''silver.trips'' = Some ?t" "tables ?s ''silver.drivers'' = Some ?d"
      "tables ?s ''silver.customers'' = Some ?c" "tables ?s ''silver.payments'' = Some ?p"
    by (simp_all add: silver_store_def empty_store_def)
  have dp: "driver_performance ?t ?d = Some ?dp" by code_simp
  have rp: "route_performance ?t = Some ?rp" by code_simp
  have fact: "fact_trips_dashboard ?t ?c ?d ?p = Some ?f" by code_simp
  let ?s' = "?s\<lparr>tables := (tables ?s)(''gold.driver_performance'' \<mapsto> ?dp,
                                    ''gold.route_performance'' \<mapsto> ?rp,
                                    ''gold.fact_trips_dashboard'' \<mapsto> ?f)\<rparr>"
  have run: "build_gold ?s = Some ?s'"
    by (rule build_gold_eq [OF tabs dp rp fact])
  have f: "tables ?s' ''gold.fact_trips_dashboard'' = Some ?f" by simp
  have r: "?r \<in> set (rows ?f)" by simp
  have cells: "cell_of fact_columns ''paid_fare'' ?r = Num 100"
    "cell_of fact_columns ''trip_fare'' ?r = Num 100"
    by (simp_all only: fact_row_cells)
  from fare_matches_three_valued [OF run tabs(4) f r]
  have flag: "cell_of fact_columns ''fare_matches'' ?r = sql_eq (Num 100) (Num 100)"
    unfolding cells by (rule conjunct1)
  show ?thesis
    by (rule exI [of _ ?s'], rule exI [of _ ?f]) (intro conjI run f r flag)
qed

section \<open>Keys of the Silver frames and joins\<close>







section \<open>Rows of the fact table\<close>





section \<open>Double precision arithmetic\<close>

text \<open>
  The rounding on known values: \<^verbatim>\<open>0.1\<close> is not a double, \<^verbatim>\<open>0.1 + 0.2\<close> is the double
  above \<^verbatim>\<open>0.3\<close>, the integers above \<^verbatim>\<open>2^53\<close> round to even, and a double that needs 17
  digits loses the last two in a \<^verbatim>\<open>NUMERIC\<close> column.
\<close>

lemma float64_examples:
  "float64 (1 / 10) = 3602879701896397 / 36028797018963968"
  "float64 (float64 (1 / 10) + float64 (2 / 10)) = 1351079888211149 / 4503599627370496"
  "float64 (3 / 10) = 5404319552844595 / 18014398509481984"
  "float64 9007199254740993 = 9007199254740992"
  "float64 9007199254740995 = 9007199254740996"
  "float64 (- 5 / 2) = - 5 / 2"
  "float64 (10000000000000000 - 3 / 2) = 9999999999999998"
  "float8_to_numeric 10000000000000002 = 10000000000000000"
  "float8_to_numeric (float64 (1 / 10)) = 1 / 10"
  by code_simp+

section \<open>Driver performance\<close>












section \<open>Reconciliation\<close>

lemma cell_of_realign:
  assumes "c \<in> set cols"
  shows "cell_of cols c (realign cols df r) = cell_of (columns df) c r"
proof -
  from assms obtain i where i: "index_of c cols = Some i"
    using index_of_None [of c cols] by auto
  from index_of_Some [OF i] have "i < length cols" and "cols ! i = c" by simp_all
  then show ?thesis
    using i by (simp add: cell_of_def realign_def cell_at_def)
qed

lemma log_reconciliation_eq:
  "log_reconciliation e results s =
     (let df = (case files s ''log/gold/reconciliation.csv'' of
                  None \<Rightarrow> \<lparr>columns = recon_columns, rows = [results @ [clock e (ticks s)]]\<rparr>
                | Some existing \<Rightarrow>
                    concat_frames existing
                      \<lparr>columns = recon_columns, rows = [results @ [clock e (ticks s)]]\<rparr>);
          old = table_or_new s ''audit.reconciliation_log'' recon_columns
      in if set (columns df) \<subseteq> set (columns old)
         then Some (s\<lparr>ticks := Suc (ticks s),
                     files := (files s)(''log/gold/reconciliation.csv'' \<mapsto> df),
                     tables := (tables s)(''audit.reconciliation_log'' \<mapsto>
                        old\<lparr>rows := rows old @ map (realign (columns old) df) (rows df)\<rparr>)\<rparr>)
         else None)"
  by (simp add: log_reconciliation_def now_def Let_def append_after_create table_or_new_def)







section \<open>The audit stores\<close>

lemma keeps_records_None [simp]: "keeps_records None x"
  by (simp add: keeps_records_def)

lemma keeps_records_refl: "keeps_records x x"
  by (cases x) (simp_all add: keeps_records_def)

lemma keeps_records_trans:
  assumes "keeps_records x y" and "keeps_records y z"
  shows "keeps_records x z"
proof (cases x)
  case None
  then show ?thesis by simp
next
  case (Some a)
  with assms(1) obtain b where y: "y = Some b" by (cases y) (simp_all add: keeps_records_def)
  with assms(2) obtain c where z: "z = Some c" by (cases z) (simp_all add: keeps_records_def)
  from assms(1) Some y have ab: "set (columns a) \<subseteq> set (columns b)"
      "length (rows a) \<le> length (rows b)"
      "\<And>k col. k < length (rows a) \<Longrightarrow> col \<in> set (columns a) \<Longrightarrow>
         cell_of (columns b) col (rows b ! k) = cell_of (columns a) col (rows a ! k)"
    by (simp_all add: keeps_records_def)
  from assms(2) y z have bc: "set (columns b) \<subseteq> set (columns c)"
      "length (rows b) \<le> length (rows c)"
      "\<And>k col. k < length (rows b) \<Longrightarrow> col \<in> set (columns b) \<Longrightarrow>
         cell_of (columns c) col (rows c ! k) = cell_of (columns b) col (rows b ! k)"
    by (simp_all add: keeps_records_def)
  have "cell_of (columns c) col (rows c ! k) = cell_of (columns a) col (rows a ! k)"
    if "k < length (rows a)" and "col \<in> set (columns a)" for k col
  proof -
    from that ab(1,2) have "k < length (rows b)" and "col \<in> set (columns b)" by auto
    then show ?thesis using bc(3) [of k col] ab(3) [OF that] by simp
  qed
  moreover have "set (columns a) \<subseteq> set (columns c)" using ab(1) bc(1) by blast
  moreover have "length (rows a) \<le> length (rows c)" using ab(2) bc(2) by simp
  ultimately show ?thesis unfolding Some z by (simp add: keeps_records_def)
qed

lemma keeps_records_append:
  "keeps_records (Some old) (Some (old\<lparr>rows := rows old @ ys\<rparr>))"
  by (simp add: keeps_records_def nth_append)

lemma keeps_records_concat:
  "keeps_records (Some a) (Some (concat_frames a b))"
proof -
  let ?cols = "columns a @ filter (\<lambda>c. c \<notin> set (columns a)) (columns b)"
  have "cell_of ?cols col (realign ?cols a r) = cell_of (columns a) col r"
    if "col \<in> set (columns a)" for col r
    by (rule cell_of_realign) (simp add: that)
  then show ?thesis
    by (simp add: keeps_records_def concat_frames_def Let_def nth_append)
qed

lemma audit_kept_refl: "audit_kept s s"
  by (simp add: audit_kept_def keeps_records_refl)

lemma audit_kept_trans:
  "audit_kept s1 s2 \<Longrightarrow> audit_kept s2 s3 \<Longrightarrow> audit_kept s1 s3"
  unfolding audit_kept_def by (blast intro: keeps_records_trans)

lemma audit_kept_same:
  assumes "tables s' ''audit.rejected_rows'' = tables s ''audit.rejected_rows''"
    and "tables s' ''audit.reconciliation_log'' = tables s ''audit.reconciliation_log''"
    and "files s' ''log/gold/reconciliation.csv'' = files s ''log/gold/reconciliation.csv''"
  shows "audit_kept s s'"
  unfolding audit_kept_def assms by (simp add: keeps_records_refl)

lemma load_bronze_files_kept: "audit_kept s (load_bronze_files e fs s)"
proof (induction e fs s rule: load_bronze_files.induct)
  case (1 e s)
  show ?case by (simp add: audit_kept_refl)
next
  case (2 e table fs s)
  then show ?case by simp
next
  case (3 e table df fs s)
  let ?s1 = "log_rows_and_checksum e df ''bronze'' table (to_sql_replace (''bronze.'' @ table) df s)"
  have "audit_kept s ?s1"
    by (rule audit_kept_same) (simp_all add: log_rows_and_checksum_def to_sql_replace_def)
  with 3 show ?case by (simp add: audit_kept_trans)
qed

lemma load_bronze_kept: "audit_kept s (load_bronze e raw s)"
  unfolding load_bronze_def by (rule load_bronze_files_kept)

lemma log_dq_kept:
  assumes "log_dq e tb m i s = Some s'"
  shows "audit_kept s s'"
proof -
  from assms have s': "s' = s\<lparr>ticks := Suc (ticks s),
                  files := (files s)(''log/silver/'' @ tb @ ''_dq.csv'' \<mapsto>
                    \<lparr>columns = dq_columns,
                     rows = [[Str tb, Num (of_nat m), Num (of_nat i), clock e (ticks s)]]\<rparr>),
                  tables := (tables s)(''audit.rejected_rows'' \<mapsto>
                    (table_or_new s ''audit.rejected_rows'' dq_columns)
                      \<lparr>rows := rows (table_or_new s ''audit.rejected_rows'' dq_columns)
                         @ [realign (columns (table_or_new s ''audit.rejected_rows'' dq_columns))
                              \<lparr>columns = dq_columns,
                               rows = [[Str tb, Num (of_nat m), Num (of_nat i), clock e (ticks s)]]\<rparr>
                              [Str tb, Num (of_nat m), Num (of_nat i), clock e (ticks s)]]\<rparr>)\<rparr>"
    unfolding log_dq_eq by (simp split: if_splits)
  have "keeps_records (tables s ''audit.rejected_rows'') (tables s' ''audit.rejected_rows'')"
  proof (cases "tables s ''audit.rejected_rows''")
    case None
    then show ?thesis by simp
  next
    case (Some old)
    then show ?thesis unfolding s' by (simp add: table_or_new_def keeps_records_append)
  qed
  moreover have "tables s' ''audit.reconciliation_log'' = tables s ''audit.reconciliation_log''"
    unfolding s' by simp
  moreover have "files s' ''log/gold/reconciliation.csv'' = files s ''log/gold/reconciliation.csv''"
    unfolding s' by simp
  ultimately show ?thesis by (simp add: audit_kept_def keeps_records_refl)
qed

lemma build_silver_kept:
  assumes "build_silver e s = Some s'"
  shows "audit_kept s s'"
proof -
  from assms obtain c d t p m1 m2 m3 m4 s1 s2 s3 s4 where
      l1: "log_dq e ''customers'' m1 0 s = Some s1"
    and l2: "log_dq e ''drivers'' m2 0 s1 = Some s2"
    and l3: "log_dq e ''trips'' 0 m3 s2 = Some s3"
    and l4: "log_dq e ''payments'' 0 m4 s3 = Some s4"
    and s': "s' = log_rows_and_checksum e p ''silver'' ''payments''
              (log_rows_and_checksum e t ''silver'' ''trips''
                (log_rows_and_checksum e d ''silver'' ''drivers''
                  (log_rows_and_checksum e c ''silver'' ''customers''
                    (to_sql_replace ''silver.payments'' p
                      (to_sql_replace ''silver.trips'' t
                        (to_sql_replace ''silver.drivers'' d
                          (to_sql_replace ''silver.customers'' c s4)))))))"
    unfolding build_silver_def Let_def bind_eq_Some_conv read_sql_def
    by (auto simp: bind_eq_Some_conv)
  have "audit_kept s s4"
    by (rule audit_kept_trans [OF log_dq_kept [OF l1]
          audit_kept_trans [OF log_dq_kept [OF l2]
            audit_kept_trans [OF log_dq_kept [OF l3] log_dq_kept [OF l4]]]])
  moreover have "audit_kept s4 s'"
    by (rule audit_kept_same)
       (simp_all add: s' log_rows_and_checksum_def to_sql_replace_def)
  ultimately show ?thesis by (rule audit_kept_trans)
qed

lemma build_gold_kept:
  assumes "build_gold s = Some s'"
  shows "audit_kept s s'"
proof -
  from build_gold_Some [OF assms] obtain dp rp ft where
    s': "s' = s\<lparr>tables := (tables s)(''gold.driver_performance'' \<mapsto> dp,
                                    ''gold.route_performance'' \<mapsto> rp,
                                    ''gold.fact_trips_dashboard'' \<mapsto> ft)\<rparr>"
    by blast
  show ?thesis by (rule audit_kept_same) (simp_all add: s')
qed

lemma log_reconciliation_kept:
  assumes "log_reconciliation e results s = Some s'"
  shows "audit_kept s s'"
proof -
  let ?df0 = "\<lparr>columns = recon_columns, rows = [results @ [clock e (ticks s)]]\<rparr>"
  let ?df = "case files s ''log/gold/reconciliation.csv'' of
               None \<Rightarrow> ?df0 | Some existing \<Rightarrow> concat_frames existing ?df0"
  let ?old = "table_or_new s ''audit.reconciliation_log'' recon_columns"
  from assms have s': "s' = s\<lparr>ticks := Suc (ticks s),
                     files := (files s)(''log/gold/reconciliation.csv'' \<mapsto> ?df),
                     tables := (tables s)(''audit.reconciliation_log'' \<mapsto>
                        ?old\<lparr>rows := rows ?old @ map (realign (columns ?old) ?df) (rows ?df)\<rparr>)\<rparr>"
    unfolding log_reconciliation_eq Let_def by (simp split: if_splits)
  have "tables s' ''audit.rejected_rows'' = tables s ''audit.rejected_rows''"
    unfolding s' by simp
  moreover have "keeps_records (tables s ''audit.reconciliation_log'')
      (tables s' ''audit.reconciliation_log'')"
  proof (cases "tables s ''audit.reconciliation_log''")
    case None
    then show ?thesis by simp
  next
    case (Some old)
    then have "?old = old" by (simp add: table_or_new_def)
    with Some show ?thesis unfolding s' by (simp add: keeps_records_append)
  qed
  moreover have "keeps_records (files s ''log/gold/reconciliation.csv'')
      (files s' ''log/gold/reconciliation.csv'')"
  proof (cases "files s ''log/gold/reconciliation.csv''")
    case None
    then show ?thesis by simp
  next
    case (Some existing)
    then show ?thesis unfolding s' by (simp add: keeps_records_concat)
  qed
  ultimately show ?thesis by (simp add: audit_kept_def keeps_records_refl)
qed

lemma reconcile_kept:
  assumes "reconcile e s = Some s'"
  shows "audit_kept s s'"
proof -
  from assms obtain results where "log_reconciliation e results s = Some s'"
    unfolding reconcile_def Let_def bind_eq_Some_conv by blast
  then show ?thesis by (rule log_reconciliation_kept)
qed

text \<open>
  C3, as stated, fails: the snapshot file of a table holds only the last snapshot, and
  the data-quality file of a table only the last record.
\<close>

theorem audit_files_replaced_counterexample:
  "\<not> keeps_records
       (files (load_bronze demo_env (demo_raw [[Str ''C1'', Str ''Alice'', Day 2024 1 10]])
                 empty_store) ''log/bronze/customers.csv'')
       (files (load_bronze demo_env (demo_raw [[Str ''C2'', Str ''Carol'', Day 2024 2 2]])
                 (load_bronze demo_env (demo_raw [[Str ''C1'', Str ''Alice'', Day 2024 1 10]])
                    empty_store)) ''log/bronze/customers.csv'')
   \<and> file_of ''log/silver/customers_dq.csv''
         (build_silver demo_env
            (load_bronze demo_env (demo_raw [[Str ''C1'', Str ''Alice'', Day 2024 1 10]]) empty_store))
       = Some \<lparr>columns = dq_columns,
               rows = [[Str ''customers'', Num 0, Num 0, Stamp 2024 1 1 0]]\<rparr>
   \<and> file_of ''log/silver/customers_dq.csv''
         (Option.bind
            (build_silver demo_env
               (load_bronze demo_env (demo_raw [[Str ''C1'', Str ''Alice'', Day 2024 1 10]]) empty_store))
            (build_silver demo_env))
       = Some \<lparr>columns = dq_columns,
               rows = [[Str ''customers'', Num 0, Num 0, Stamp 2024 1 1 4]]\<rparr>
   \<and> \<not> keeps_records
       (Some \<lparr>columns = dq_columns,
              rows = [[Str ''customers'', Num 0, Num 0, Stamp 2024 1 1 0]]\<rparr>)
       (Some \<lparr>columns = dq_columns,
              rows = [[Str ''customers'', Num 0, Num 0, Stamp 2024 1 1 4]]\<rparr>)"
  by code_simp

text \<open>
  C3, amended. Every step of the pipeline that returns leaves each record of the audit
  tables \<^verbatim>\<open>audit.rejected_rows\<close> and \<^verbatim>\<open>audit.reconciliation_log\<close> and of the
  reconciliation file in place and unchanged: these three stores only grow.
\<close>

theorem audit_stores_append_only:
  assumes "main e raw step s = Some s'"
  shows "audit_kept s s'"
proof -
  from assms obtain s1 s2 where
      a: "(if step \<in> {Step_extract, Step_load_bronze, Step_all}
           then Some (load_bronze e raw s) else Some s) = Some s1"
    and b: "(if step \<in> {Step_build_silver, Step_all} then build_silver e s1 else Some s1) = Some s2"
    and c: "(if step \<in> {Step_build_gold, Step_all}
           then Option.bind (build_gold s2) (reconcile e) else Some s2) = Some s'"
    unfolding main_def bind_eq_Some_conv by auto
  have "audit_kept s s1"
    using a by (auto simp: load_bronze_kept audit_kept_refl split: if_splits)
  moreover have "audit_kept s1 s2"
    using b by (auto simp: build_silver_kept audit_kept_refl split: if_splits)
  moreover have "audit_kept s2 s'"
  proof (cases "step \<in> {Step_build_gold, Step_all}")
    case True
    with c obtain s3 where "build_gold s2 = Some s3" and "reconcile e s3 = Some s'"
      by (auto simp: bind_eq_Some_conv)
    then show ?thesis
      by (blast intro: audit_kept_trans build_gold_kept reconcile_kept)
  next
    case False
    with c show ?thesis by (simp add: audit_kept_refl)
  qed
  ultimately show ?thesis by (blast intro: audit_kept_trans)
qed

theorem audit_stores_append_only_witness:
  "\<exists>s1 s2.
      main demo_env (demo_raw [[Str ''C1'', Str ''Alice'', Day 2024 1 10]]) Step_all empty_store
        = Some s1
    \<and> main demo_env (demo_raw [[Str ''C1'', Str ''Alice'', Day 2024 1 10]]) Step_all s1 = Some s2
    \<and> audit_kept s1 s2"
proof -
  have "map_option ticks
      (Option.bind
         (main demo_env (demo_raw [[Str ''C1'', Str ''Alice'', Day 2024 1 10]]) Step_all empty_store)
         (main demo_env (demo_raw [[Str ''C1'', Str ''Alice'', Day 2024 1 10]]) Step_all))
      = Some 10"
    by code_simp
  then obtain s1 s2 where
      run1: "main demo_env (demo_raw [[Str ''C1'', Str ''Alice'', Day 2024 1 10]]) Step_all empty_store
        = Some s1"
    and run2: "main demo_env (demo_raw [[Str ''C1'', Str ''Alice'', Day 2024 1 10]]) Step_all s1 = Some s2"
    by (auto simp: bind_eq_Some_conv)
  note kept = audit_stores_append_only [OF run2]
  show ?thesis
    by (rule exI [of _ s1], rule exI [of _ s2]) (intro conjI run1 run2 kept)
qed

end
